theory Spec2Isabelle
  imports Complex_Main "HOL-Library.Sublist"
begin

section \<open>Data model\<close>

text \<open>
  The three scripts \<^verbatim>\<open>calculate_extreme_precip.py\<close>, \<^verbatim>\<open>calculate_wet_days.py\<close> and
  \<^verbatim>\<open>calculate_rainfall_deviation.py\<close> compute with pandas columns of 64-bit floats.
  A float cell is modelled as a real number or NaN: rounding and infinities are
  abstracted away, NaN is kept, because pandas uses it for every missing value and the
  scripts' comparisons and reductions treat it specially (a comparison with NaN is
  False, \<^verbatim>\<open>sum\<close>, \<^verbatim>\<open>mean\<close> and \<^verbatim>\<open>std\<close> skip NaN cells, arithmetic propagates it).
\<close>

datatype fval = Num real | NaN

fun fadd :: "fval \<Rightarrow> fval \<Rightarrow> fval" where
  "fadd (Num a) (Num b) = Num (a + b)"
| "fadd _ _ = NaN"

fun fsub :: "fval \<Rightarrow> fval \<Rightarrow> fval" where
  "fsub (Num a) (Num b) = Num (a - b)"
| "fsub _ _ = NaN"

fun fmul :: "fval \<Rightarrow> fval \<Rightarrow> fval" where
  "fmul (Num a) (Num b) = Num (a * b)"
| "fmul _ _ = NaN"

text \<open>
  Division of numpy floats. A zero divisor gives NaN here (numpy gives an infinity or
  NaN); the scripts guard every division, so that branch is never reached by them.
\<close>

fun fdiv :: "fval \<Rightarrow> fval \<Rightarrow> fval" where
  "fdiv (Num a) (Num b) = (if b = 0 then NaN else Num (a / b))"
| "fdiv _ _ = NaN"

text \<open>The comparisons \<^verbatim>\<open>a > b\<close>, \<^verbatim>\<open>a < b\<close> and \<^verbatim>\<open>a == b\<close>: False as soon as one side is NaN.\<close>

fun fgt :: "fval \<Rightarrow> fval \<Rightarrow> bool" where
  "fgt (Num a) (Num b) = (b < a)"
| "fgt _ _ = False"

fun flt :: "fval \<Rightarrow> fval \<Rightarrow> bool" where
  "flt (Num a) (Num b) = (a < b)"
| "flt _ _ = False"

fun feq :: "fval \<Rightarrow> fval \<Rightarrow> bool" where
  "feq (Num a) (Num b) = (a = b)"
| "feq _ _ = False"

text \<open>The cells of a column that hold a number (what is left under \<^verbatim>\<open>skipna=True\<close>).\<close>

fun nums :: "fval list \<Rightarrow> real list" where
  "nums [] = []"
| "nums (Num r # xs) = r # nums xs"
| "nums (NaN # xs) = nums xs"

text \<open>\<^verbatim>\<open>Series.sum()\<close>: NaN cells are skipped, the sum of nothing is 0.\<close>

definition psum :: "fval list \<Rightarrow> fval" where
  "psum xs = Num (sum_list (nums xs))"

text \<open>\<^verbatim>\<open>Series.mean()\<close>: NaN cells are skipped, the mean of nothing is NaN.\<close>

definition pmean :: "fval list \<Rightarrow> fval" where
  "pmean xs =
     (let v = nums xs in
      if v = [] then NaN else Num (sum_list v / real (length v)))"

text \<open>
  \<^verbatim>\<open>Series.std()\<close>: the sample standard deviation (\<^verbatim>\<open>ddof=1\<close>) of the cells that are
  numbers, NaN when fewer than two are left.
\<close>

definition pstd :: "fval list \<Rightarrow> fval" where
  "pstd xs =
     (let v = nums xs; n = length v in
      if n \<le> 1 then NaN
      else let mu = sum_list v / real n in
           Num (sqrt (sum_list (map (\<lambda>x. (x - mu) ^ 2) v) / real (n - 1))))"

text \<open>
  A \<^verbatim>\<open>pd.Timestamp\<close>, as far as the scripts read it: year, month and day. Dates are
  parsed values; a row whose date does not parse is outside the model.
\<close>

record timestamp =
  ts_year :: int
  ts_month :: nat
  ts_day :: nat

text \<open>One row of a location's daily precipitation table: column \<^verbatim>\<open>time\<close> and column \<^verbatim>\<open>tp\<close>.\<close>

record precip_row =
  time :: timestamp
  tp :: fval

type_synonym precip_table = "precip_row list"

subsection \<open>Calendar arithmetic of \<^verbatim>\<open>pd.DateOffset(months=m)\<close>\<close>

definition is_leap :: "int \<Rightarrow> bool" where
  "is_leap y = (y mod 4 = 0 \<and> (y mod 100 \<noteq> 0 \<or> y mod 400 = 0))"

definition days_in_month :: "int \<Rightarrow> nat \<Rightarrow> nat" where
  "days_in_month y m =
     (if m = 2 then (if is_leap y then 29 else 28)
      else if m = 4 \<or> m = 6 \<or> m = 9 \<or> m = 11 then 30
      else 31)"

text \<open>
  \<^verbatim>\<open>base_date - pd.DateOffset(months=m)\<close>. pandas hands the subtraction to
  \<^verbatim>\<open>dateutil.relativedelta\<close>, whose steps are followed here: the offset is normalised to
  whole years and fewer than twelve months, the months are subtracted with a borrow from
  the year, and the day is clamped to the length of the month reached.
\<close>

definition sub_months :: "timestamp \<Rightarrow> nat \<Rightarrow> timestamp" where
  "sub_months d m =
     (let years = m div 12;
          months = m mod 12;
          y0 = ts_year d - int years;
          y = (if months \<noteq> 0 \<and> ts_month d \<le> months then y0 - 1 else y0);
          mo = (if months = 0 then ts_month d
                else if ts_month d \<le> months then ts_month d + 12 - months
                else ts_month d - months)
      in \<lparr>ts_year = y, ts_month = mo, ts_day = min (days_in_month y mo) (ts_day d)\<rparr>)"

section \<open>Window aggregators\<close>

text \<open>
  The boolean mask
  \<^verbatim>\<open>(precip_data['time'].dt.year == year) & (precip_data['time'].dt.month == month)\<close>
  that all three aggregators apply to the daily table.
\<close>

definition in_month :: "timestamp \<Rightarrow> precip_row \<Rightarrow> bool" where
  "in_month target r =
     (ts_year (time r) = ts_year target \<and> ts_month (time r) = ts_month target)"

definition monthly :: "timestamp \<Rightarrow> precip_table \<Rightarrow> precip_table" where
  "monthly target precip_data = filter (in_month target) precip_data"

subsection \<open>\<^verbatim>\<open>calc_extreme_precip\<close> (calculate_extreme_precip.py)\<close>

definition calc_extreme_precip ::
  "timestamp \<Rightarrow> precip_table \<Rightarrow> fval \<Rightarrow> fval \<Rightarrow> nat \<times> fval \<times> fval" where
  "calc_extreme_precip target_date precip_data threshold avg_precip =
     (let extreme = filter (\<lambda>r. fgt (tp r) threshold) (monthly target_date precip_data) in
      if length extreme = 0 then (0, Num 0, Num 0)
      else
        let n_days = length extreme;
            excess = fsub (psum (map tp extreme)) (fmul threshold (Num (real n_days)));
            intensity = (if fgt avg_precip (Num 0) then fdiv excess avg_precip else Num 0)
        in (n_days, excess, intensity))"

subsection \<open>\<^verbatim>\<open>calc_wet_days\<close> (calculate_wet_days.py)\<close>

definition WET_DAY_THRESHOLD :: fval where
  "WET_DAY_THRESHOLD = Num 1"

definition calc_wet_days :: "timestamp \<Rightarrow> precip_table \<Rightarrow> fval \<Rightarrow> nat" where
  "calc_wet_days target_date precip_data threshold =
     length (filter (\<lambda>r. fgt (tp r) threshold) (monthly target_date precip_data))"

subsection \<open>Historical statistics and the monthly RSD (calculate_rainfall_deviation.py)\<close>

definition HISTORICAL_PERIOD :: "int \<times> int" where
  "HISTORICAL_PERIOD = (1980, 2020)"

text \<open>
  The dictionary \<^verbatim>\<open>hist_stats\<close>: \<^verbatim>\<open>monthly_mean\<close> is itself a dictionary keyed by the
  calendar month, a partial map here.
\<close>

record hist_stats =
  monthly_mean :: "nat \<rightharpoonup> fval"
  monthly_std :: fval
  annual_mean :: fval

text \<open>
  \<^verbatim>\<open>calculate_historical_stats\<close>. \<^verbatim>\<open>groupby(...)['tp'].sum()\<close> gives one total per key
  that occurs in the historical rows. pandas lists the keys in sorted order, the model
  in the order of first occurrence: the mean and the standard deviation taken of the
  totals do not depend on it.
\<close>

definition year_month :: "precip_row \<Rightarrow> int \<times> nat" where
  "year_month r = (ts_year (time r), ts_month (time r))"

definition calculate_historical_stats :: "precip_table \<Rightarrow> hist_stats" where
  "calculate_historical_stats precip_data =
     (let hist_data = filter (\<lambda>r. fst HISTORICAL_PERIOD \<le> ts_year (time r)
                                   \<and> ts_year (time r) \<le> snd HISTORICAL_PERIOD) precip_data;
          monthly_totals =
            map (\<lambda>k. (k, psum (map tp (filter (\<lambda>r. year_month r = k) hist_data))))
                (remdups (map year_month hist_data));
          annual_totals =
            map (\<lambda>y. psum (map tp (filter (\<lambda>r. ts_year (time r) = y) hist_data)))
                (remdups (map (\<lambda>r. ts_year (time r)) hist_data))
      in \<lparr>monthly_mean =
            (\<lambda>month. if 1 \<le> month \<and> month \<le> 12
                      then Some (pmean (map snd (filter (\<lambda>kv. snd (fst kv) = month) monthly_totals)))
                      else None),
          monthly_std = pstd (map snd monthly_totals),
          annual_mean = pmean annual_totals\<rparr>)"

text \<open>The exceptions the scripts can meet; each ends in the per-file handler.\<close>

datatype error = FileNotFoundError | IndexError | KeyError

text \<open>
  \<^verbatim>\<open>calc_monthly_rsd\<close>. The lookup \<^verbatim>\<open>hist_stats['monthly_mean'][month]\<close> raises
  \<^verbatim>\<open>KeyError\<close> when the dictionary has no entry for the month; it comes before the
  test of the standard deviation and the annual mean.
\<close>

definition calc_monthly_rsd :: "timestamp \<Rightarrow> precip_table \<Rightarrow> hist_stats \<Rightarrow> error + fval" where
  "calc_monthly_rsd target_date precip_data hs =
     (let actual_total = psum (map tp (monthly target_date precip_data)) in
      case monthly_mean hs (ts_month target_date) of
        None \<Rightarrow> Inl KeyError
      | Some hist_mean \<Rightarrow>
          (let hist_std = monthly_std hs;
               annual = annual_mean hs
           in if feq hist_std (Num 0) \<or> feq annual (Num 0) then Inr (Num 0)
              else Inr (fmul (fdiv (fsub actual_total hist_mean) hist_std)
                             (fdiv hist_mean annual))))"

text \<open>
  \<^verbatim>\<open>calc_cumulative_rsd\<close>: the loop over \<^verbatim>\<open>range(1, n_months + 1)\<close> with the accumulator
  \<^verbatim>\<open>cumulative_rsd\<close>, started at 0.0.
\<close>

fun cumulative_loop ::
  "timestamp \<Rightarrow> precip_table \<Rightarrow> hist_stats \<Rightarrow> nat list \<Rightarrow> fval \<Rightarrow> error + fval" where
  "cumulative_loop target_date precip_data hs [] cumulative_rsd = Inr cumulative_rsd"
| "cumulative_loop target_date precip_data hs (i # rest) cumulative_rsd =
     (case calc_monthly_rsd (sub_months target_date i) precip_data hs of
        Inl e \<Rightarrow> Inl e
      | Inr monthly_rsd \<Rightarrow>
          cumulative_loop target_date precip_data hs rest (fadd cumulative_rsd monthly_rsd))"

definition calc_cumulative_rsd ::
  "timestamp \<Rightarrow> precip_table \<Rightarrow> hist_stats \<Rightarrow> nat \<Rightarrow> error + fval" where
  "calc_cumulative_rsd target_date precip_data hs n_months =
     cumulative_loop target_date precip_data hs [1..<n_months + 1] (Num 0)"

section \<open>Loaders\<close>

text \<open>
  One row of an input table: the columns the scripts read. The other columns of the
  table travel with the row unchanged.
\<close>

record mortality_record =
  DHSID :: string
  DHS_survey :: string
  death_date_lag_0 :: timestamp

text \<open>A row of a survey's location-mapping table \<^verbatim>\<open>city_list/<survey>.csv\<close>.\<close>

record city_row =
  city_DHSID :: string
  city_id :: int

text \<open>
  A row of \<^verbatim>\<open>all_points_dhs_prep.csv\<close>, the table both \<^verbatim>\<open>THRESHOLD_FILE\<close> and
  \<^verbatim>\<open>HISTORICAL_STATS_FILE\<close> name: the threshold column \<^verbatim>\<open>p999\<close>, the columns
  \<^verbatim>\<open><month>_average\<close> (a partial map: the script tests whether each is there),
  \<^verbatim>\<open>month_std\<close> and \<^verbatim>\<open>all_average\<close>. The other columns the scripts name are taken
  to be in their tables; an empty cell is NaN.
\<close>

record stats_row =
  stats_DHSID :: string
  p999 :: fval
  average :: "nat \<rightharpoonup> fval"
  month_std :: fval
  all_average :: fval

text \<open>
  What the scripts read from disk: the input tables by file name, the mapping tables by
  survey identifier, the daily tables by survey directory and city identifier, and the
  statistics table. \<^verbatim>\<open>None\<close> is a file that is not there.
\<close>

record files =
  input_dir :: "string \<rightharpoonup> mortality_record list"
  city_list_dir :: "string \<rightharpoonup> city_row list"
  precip_dir :: "string \<times> int \<rightharpoonup> precip_table"
  all_points_dhs_prep :: "stats_row list option"

text \<open>
  \<^verbatim>\<open>str.replace(old, new)\<close> for a non-empty \<^verbatim>\<open>old\<close>: every occurrence, left to right,
  without overlap. (The scripts call it with one fixed, non-empty \<^verbatim>\<open>old\<close>; for an empty
  one the model returns the string unchanged.)
\<close>

function str_replace :: "string \<Rightarrow> string \<Rightarrow> string \<Rightarrow> string" where
  "str_replace old new [] = []"
| "str_replace old new (c # cs) =
     (if old \<noteq> [] \<and> prefix old (c # cs)
      then new @ str_replace old new (drop (length old) (c # cs))
      else c # str_replace old new cs)"
  by pat_completeness auto
termination
  by (relation "measure (\<lambda>(old, new, s). length s)") auto

text \<open>
  \<^verbatim>\<open>load_precip_data\<close> of the wet-days and the deviation script (the two are the same):
  \<^verbatim>\<open>.values[0]\<close> on an empty selection raises \<^verbatim>\<open>IndexError\<close>, \<^verbatim>\<open>pd.read_csv\<close> of a
  missing file raises \<^verbatim>\<open>FileNotFoundError\<close>.
\<close>

definition load_precip_data :: "files \<Rightarrow> string \<Rightarrow> string \<Rightarrow> error + precip_table" where
  "load_precip_data fs dhsid survey_id =
     (let survey_clean = str_replace ''Cote_d'Ivoire'' ''Cote_dIvoire'' survey_id in
      case city_list_dir fs survey_id of
        None \<Rightarrow> Inl FileNotFoundError
      | Some city_map \<Rightarrow>
          (case filter (\<lambda>r. city_DHSID r = dhsid) city_map of
             [] \<Rightarrow> Inl IndexError
           | r # _ \<Rightarrow>
               (case precip_dir fs (survey_clean, city_id r) of
                  None \<Rightarrow> Inl FileNotFoundError
                | Some precip \<Rightarrow> Inr precip)))"

text \<open>
  \<^verbatim>\<open>load_precip_data\<close> of the extreme-precipitation script: the same steps, then the
  threshold of the location and the mean over the days with rain.
\<close>

definition load_precip_data_p999 ::
  "files \<Rightarrow> string \<Rightarrow> string \<Rightarrow> stats_row list \<Rightarrow> error + precip_table \<times> fval \<times> fval" where
  "load_precip_data_p999 fs dhsid survey_id threshold_df =
     (case load_precip_data fs dhsid survey_id of
        Inl e \<Rightarrow> Inl e
      | Inr precip \<Rightarrow>
          (case filter (\<lambda>r. stats_DHSID r = dhsid) threshold_df of
             [] \<Rightarrow> Inl IndexError
           | r # _ \<Rightarrow>
               Inr (precip, p999 r, pmean (filter (\<lambda>v. fgt v (Num 0)) (map tp precip)))))"

text \<open>
  \<^verbatim>\<open>load_precomputed_stats\<close>: \<^verbatim>\<open>None\<close> when the table cannot be read (the exception is
  caught inside the function) or has no row for the location.
\<close>

definition load_precomputed_stats :: "files \<Rightarrow> string \<Rightarrow> hist_stats option" where
  "load_precomputed_stats fs dhsid =
     (case all_points_dhs_prep fs of
        None \<Rightarrow> None
      | Some stats_df \<Rightarrow>
          (case filter (\<lambda>r. stats_DHSID r = dhsid) stats_df of
             [] \<Rightarrow> None
           | r # _ \<Rightarrow>
               Some \<lparr>monthly_mean =
                       (\<lambda>month. if 1 \<le> month \<and> month \<le> 12 then average r month else None),
                     monthly_std = month_std r,
                     annual_mean = all_average r\<rparr>))"

section \<open>File drivers\<close>

definition MIN_YEAR :: int where
  "MIN_YEAR = 1981"

definition N_MONTHS :: nat where
  "N_MONTHS = 12"

text \<open>
  \<^verbatim>\<open>df[df['death_date_lag_0'].dt.year >= MIN_YEAR].reset_index(drop=True)\<close>, the first
  step of every \<^verbatim>\<open>process_file\<close>.
\<close>

definition min_year_filter :: "mortality_record list \<Rightarrow> mortality_record list" where
  "min_year_filter df = filter (\<lambda>r. MIN_YEAR \<le> ts_year (death_date_lag_0 r)) df"

text \<open>The lookback offsets \<^verbatim>\<open>range(1, N_MONTHS + 1)\<close>.\<close>

definition lookback :: "nat list" where
  "lookback = [1..<N_MONTHS + 1]"

text \<open>
  The columns \<^verbatim>\<open><name>_1\<close> ... \<^verbatim>\<open><name>_12\<close> of an output row are kept as a list;
  \<^verbatim>\<open>col xs m\<close> reads column \<^verbatim>\<open><name>_m\<close>.
\<close>

definition col :: "'a list \<Rightarrow> nat \<Rightarrow> 'a" where
  "col xs m = xs ! (m - 1)"

subsection \<open>Wet days: \<^verbatim>\<open>process_file\<close> of calculate_wet_days.py\<close>

record wet_row =
  wet_base :: mortality_record
  wet_days :: "nat list"
  wet_days_annual :: nat

text \<open>The inner loop over the lookback months: the twelve \<^verbatim>\<open>wet_days_m\<close> cells of a row.\<close>

definition wet_columns :: "timestamp \<Rightarrow> precip_table \<Rightarrow> nat list" where
  "wet_columns base_date precip =
     map (\<lambda>m. calc_wet_days (sub_months base_date m) precip WET_DAY_THRESHOLD) lookback"

text \<open>
  The loop over the rows. An exception of \<^verbatim>\<open>load_precip_data\<close> leaves the loop and the
  function: no later row is looked at.
\<close>

fun wet_loop :: "files \<Rightarrow> mortality_record list \<Rightarrow> error + (mortality_record \<times> nat list) list" where
  "wet_loop fs [] = Inr []"
| "wet_loop fs (r # rest) =
     (case load_precip_data fs (DHSID r) (DHS_survey r) of
        Inl e \<Rightarrow> Inl e
      | Inr precip \<Rightarrow>
          (let wd = wet_columns (death_date_lag_0 r) precip
           in case wet_loop fs rest of
                Inl e \<Rightarrow> Inl e
              | Inr out \<Rightarrow> Inr ((r, wd) # out)))"

text \<open>
  The body of the \<^verbatim>\<open>try\<close>: the table written to the output directory, or the exception
  that ends it. Creating the directory and writing the file are taken to succeed; the
  progress messages are left out.
\<close>

definition wet_table :: "files \<Rightarrow> string \<Rightarrow> error + wet_row list" where
  "wet_table fs filename =
     (case input_dir fs filename of
        None \<Rightarrow> Inl FileNotFoundError
      | Some df \<Rightarrow>
          (case wet_loop fs (min_year_filter df) of
             Inl e \<Rightarrow> Inl e
           | Inr rows \<Rightarrow>
               Inr (map (\<lambda>(r, wd). \<lparr>wet_base = r, wet_days = wd,
                                     wet_days_annual = sum_list (map (col wd) lookback)\<rparr>) rows)))"

text \<open>\<^verbatim>\<open>process_file\<close>: the file name on success, \<^verbatim>\<open>None\<close> after any exception.\<close>

definition process_file_wet :: "files \<Rightarrow> string \<Rightarrow> string option" where
  "process_file_wet fs filename =
     (case wet_table fs filename of Inl e \<Rightarrow> None | Inr out \<Rightarrow> Some filename)"

subsection \<open>Extreme precipitation: \<^verbatim>\<open>process_file\<close> of calculate_extreme_precip.py\<close>

record p999_row =
  p999_base :: mortality_record
  p999_days :: "fval list"
  p999_excess :: "fval list"
  p999_intensity :: "fval list"
  p999_annual_days :: fval
  p999_annual_excess :: fval

text \<open>The inner loop over the lookback months: one triple per month.\<close>

definition p999_columns ::
  "timestamp \<Rightarrow> precip_table \<Rightarrow> fval \<Rightarrow> fval \<Rightarrow> (nat \<times> fval \<times> fval) list" where
  "p999_columns base_date precip threshold avg =
     map (\<lambda>m. calc_extreme_precip (sub_months base_date m) precip threshold avg) lookback"

fun p999_loop ::
  "files \<Rightarrow> stats_row list \<Rightarrow> mortality_record list
     \<Rightarrow> error + (mortality_record \<times> (nat \<times> fval \<times> fval) list) list" where
  "p999_loop fs threshold_df [] = Inr []"
| "p999_loop fs threshold_df (r # rest) =
     (case load_precip_data_p999 fs (DHSID r) (DHS_survey r) threshold_df of
        Inl e \<Rightarrow> Inl e
      | Inr (precip, threshold, avg) \<Rightarrow>
          (let ms = p999_columns (death_date_lag_0 r) precip threshold avg
           in case p999_loop fs threshold_df rest of
                Inl e \<Rightarrow> Inl e
              | Inr out \<Rightarrow> Inr ((r, ms) # out)))"

text \<open>
  The day counts are stored in float columns; the annual columns are row sums
  (\<^verbatim>\<open>DataFrame.sum(axis=1)\<close>, which skips NaN cells).
\<close>

definition p999_table :: "files \<Rightarrow> string \<Rightarrow> error + p999_row list" where
  "p999_table fs filename =
     (case input_dir fs filename of
        None \<Rightarrow> Inl FileNotFoundError
      | Some df \<Rightarrow>
          (case all_points_dhs_prep fs of
             None \<Rightarrow> Inl FileNotFoundError
           | Some threshold_df \<Rightarrow>
               (case p999_loop fs threshold_df (min_year_filter df) of
                  Inl e \<Rightarrow> Inl e
                | Inr rows \<Rightarrow>
                    Inr (map (\<lambda>(r, ms).
                           (let days = map (\<lambda>x. Num (real (fst x))) ms;
                                excess = map (\<lambda>x. fst (snd x)) ms;
                                intensity = map (\<lambda>x. snd (snd x)) ms
                            in \<lparr>p999_base = r, p999_days = days, p999_excess = excess,
                                p999_intensity = intensity,
                                p999_annual_days = psum (map (col days) lookback),
                                p999_annual_excess = psum (map (col excess) lookback)\<rparr>)) rows))))"

definition process_file_p999 :: "files \<Rightarrow> string \<Rightarrow> string option" where
  "process_file_p999 fs filename =
     (case p999_table fs filename of Inl e \<Rightarrow> None | Inr out \<Rightarrow> Some filename)"

subsection \<open>Rainfall deviation: \<^verbatim>\<open>process_file\<close> of calculate_rainfall_deviation.py\<close>

record rsd_row =
  rsd_base :: mortality_record
  rsd_month :: "fval list"
  rsd_cumulative :: "fval list"
  rsd_annual :: fval
  rsd_positive :: fval
  rsd_negative :: fval

text \<open>The loop that fills \<^verbatim>\<open>monthly_rsds\<close>; a \<^verbatim>\<open>KeyError\<close> of one month ends it.\<close>

fun monthly_rsds_loop ::
  "timestamp \<Rightarrow> precip_table \<Rightarrow> hist_stats \<Rightarrow> nat list \<Rightarrow> error + fval list" where
  "monthly_rsds_loop base_date precip hs [] = Inr []"
| "monthly_rsds_loop base_date precip hs (m # rest) =
     (case calc_monthly_rsd (sub_months base_date m) precip hs of
        Inl e \<Rightarrow> Inl e
      | Inr rsd \<Rightarrow>
          (case monthly_rsds_loop base_date precip hs rest of
             Inl e \<Rightarrow> Inl e
           | Inr later \<Rightarrow> Inr (rsd # later)))"

text \<open>Python's built-in \<^verbatim>\<open>sum\<close>: left to right, starting from 0.\<close>

definition py_sum :: "fval list \<Rightarrow> fval" where
  "py_sum xs = foldl fadd (Num 0) xs"

text \<open>
  The two groups of columns of one row: \<^verbatim>\<open>rsd_month_m\<close> and
  \<^verbatim>\<open>rsd_cumulative_m = sum(monthly_rsds[:m])\<close>.
\<close>

definition rsd_columns ::
  "timestamp \<Rightarrow> precip_table \<Rightarrow> hist_stats \<Rightarrow> error + fval list \<times> fval list" where
  "rsd_columns base_date precip hs =
     (case monthly_rsds_loop base_date precip hs lookback of
        Inl e \<Rightarrow> Inl e
      | Inr monthly_rsds \<Rightarrow>
          Inr (monthly_rsds, map (\<lambda>m. py_sum (take m monthly_rsds)) lookback))"

text \<open>The statistics a row is computed with: the precomputed ones, else those of the series.\<close>

definition row_hist_stats :: "files \<Rightarrow> string \<Rightarrow> precip_table \<Rightarrow> hist_stats" where
  "row_hist_stats fs dhsid precip =
     (case load_precomputed_stats fs dhsid of
        None \<Rightarrow> calculate_historical_stats precip
      | Some hs \<Rightarrow> hs)"

fun rsd_loop ::
  "files \<Rightarrow> mortality_record list \<Rightarrow> error + (mortality_record \<times> fval list \<times> fval list) list" where
  "rsd_loop fs [] = Inr []"
| "rsd_loop fs (r # rest) =
     (case load_precip_data fs (DHSID r) (DHS_survey r) of
        Inl e \<Rightarrow> Inl e
      | Inr precip \<Rightarrow>
          (case rsd_columns (death_date_lag_0 r) precip (row_hist_stats fs (DHSID r) precip) of
             Inl e \<Rightarrow> Inl e
           | Inr cols \<Rightarrow>
               (case rsd_loop fs rest of
                  Inl e \<Rightarrow> Inl e
                | Inr out \<Rightarrow> Inr ((r, cols) # out))))"

text \<open>
  The columns added after the loop: \<^verbatim>\<open>rsd_annual\<close> is column \<^verbatim>\<open>rsd_cumulative_12\<close>,
  \<^verbatim>\<open>rsd_positive\<close> is \<^verbatim>\<open>x if x > 0 else 0\<close> and \<^verbatim>\<open>rsd_negative\<close> is
  \<^verbatim>\<open>x if x < 0 else 0\<close> of it.
\<close>

definition rsd_finish :: "mortality_record \<times> fval list \<times> fval list \<Rightarrow> rsd_row" where
  "rsd_finish x =
     (let annual = col (snd (snd x)) 12
      in \<lparr>rsd_base = fst x, rsd_month = fst (snd x), rsd_cumulative = snd (snd x),
          rsd_annual = annual,
          rsd_positive = (if fgt annual (Num 0) then annual else Num 0),
          rsd_negative = (if flt annual (Num 0) then annual else Num 0)\<rparr>)"

definition rsd_table :: "files \<Rightarrow> string \<Rightarrow> error + rsd_row list" where
  "rsd_table fs filename =
     (case input_dir fs filename of
        None \<Rightarrow> Inl FileNotFoundError
      | Some df \<Rightarrow>
          (case rsd_loop fs (min_year_filter df) of
             Inl e \<Rightarrow> Inl e
           | Inr rows \<Rightarrow> Inr (map rsd_finish rows)))"

definition process_file_rsd :: "files \<Rightarrow> string \<Rightarrow> string option" where
  "process_file_rsd fs filename =
     (case rsd_table fs filename of Inl e \<Rightarrow> None | Inr out \<Rightarrow> Some filename)"

section \<open>Notions used to state the properties\<close>

text \<open>The number held by a cell; only read where the cell is known to hold one.\<close>

fun num_of :: "fval \<Rightarrow> real" where
  "num_of (Num r) = r"
| "num_of NaN = 0"

text \<open>The days (as positions in the daily table) that fall in the target calendar month.\<close>

definition month_days :: "timestamp \<Rightarrow> precip_table \<Rightarrow> nat set" where
  "month_days target precip_data =
     set (filter (\<lambda>i. in_month target (precip_data ! i)) [0..<length precip_data])"

text \<open>A cell that holds a number strictly above \<open>t\<close>.\<close>

definition above :: "real \<Rightarrow> fval \<Rightarrow> bool" where
  "above t x = (case x of Num v \<Rightarrow> t < v | NaN \<Rightarrow> False)"

text \<open>The days of the target month whose precipitation is strictly above \<open>t\<close>.\<close>

definition exceeding_days :: "timestamp \<Rightarrow> precip_table \<Rightarrow> real \<Rightarrow> nat set" where
  "exceeding_days target precip_data t =
     set (filter (\<lambda>i. in_month target (precip_data ! i) \<and> above t (tp (precip_data ! i)))
           [0..<length precip_data])"

text \<open>The month's total: the sum over its days, a day without a value counting nothing.\<close>

definition month_total :: "timestamp \<Rightarrow> precip_table \<Rightarrow> real" where
  "month_total target precip_data =
     (\<Sum>i\<in>month_days target precip_data. num_of (tp (precip_data ! i)))"

subsection \<open>Concrete inputs\<close>

definition day_of :: "int \<Rightarrow> nat \<Rightarrow> nat \<Rightarrow> timestamp" where
  "day_of y m d = \<lparr>ts_year = y, ts_month = m, ts_day = d\<rparr>"

text \<open>The daily series of the wet-days scenario: 15 mm on 2020-01-05, 2 mm on 2020-01-20.\<close>

definition january_series :: precip_table where
  "january_series =
     [\<lparr>time = day_of 2020 1 5, tp = Num 15\<rparr>, \<lparr>time = day_of 2020 1 20, tp = Num 2\<rparr>]"

text \<open>The month of the extreme-precipitation scenario: one day at 80 mm, one at 10 mm.\<close>

definition storm_series :: precip_table where
  "storm_series =
     [\<lparr>time = day_of 2020 2 10, tp = Num 80\<rparr>, \<lparr>time = day_of 2020 2 11, tp = Num 10\<rparr>]"

text \<open>Statistics with every monthly mean 30, pooled standard deviation 5, annual mean 360.\<close>

definition flat_stats :: hist_stats where
  "flat_stats =
     \<lparr>monthly_mean = (\<lambda>month. if 1 \<le> month \<and> month \<le> 12 then Some (Num 30) else None),
      monthly_std = Num 5, annual_mean = Num 360\<rparr>"

text \<open>Statistics whose dictionary of monthly means has an entry for February only.\<close>

definition february_stats :: hist_stats where
  "february_stats = flat_stats\<lparr>monthly_mean := [2 \<mapsto> Num 30]\<rparr>"

text \<open>
  A small installation: one input table with a record of 1975 and one of 2020, both at
  location \<open>A\<close> of survey \<open>S1\<close>, which the mapping table sends to city 7.
\<close>

definition record_1975 :: mortality_record where
  "record_1975 = \<lparr>DHSID = ''A'', DHS_survey = ''S1'', death_date_lag_0 = day_of 1975 6 15\<rparr>"

definition record_2020 :: mortality_record where
  "record_2020 = \<lparr>DHSID = ''A'', DHS_survey = ''S1'', death_date_lag_0 = day_of 2020 3 15\<rparr>"

definition stats_row_A :: stats_row where
  "stats_row_A =
     \<lparr>stats_DHSID = ''A'', p999 = Num 10,
      average = (\<lambda>month. if 1 \<le> month \<and> month \<le> 12 then Some (Num 30) else None),
      month_std = Num 5, all_average = Num 360\<rparr>"

text \<open>A statistics row for another location, \<open>B\<close>.\<close>

definition stats_row_B :: stats_row where
  "stats_row_B = stats_row_A\<lparr>stats_DHSID := ''B''\<rparr>"

definition demo_files :: "stats_row list \<Rightarrow> files" where
  "demo_files stats =
     \<lparr>input_dir = [''in.csv'' \<mapsto> [record_1975, record_2020]],
      city_list_dir = [''S1'' \<mapsto> [\<lparr>city_DHSID = ''A'', city_id = 7\<rparr>]],
      precip_dir = [(''S1'', 7) \<mapsto> january_series],
      all_points_dhs_prep = Some stats\<rparr>"

section \<open>Properties\<close>

subsection \<open>Sums and counts over a filtered table\<close>

lemma sum_list_filter_index:
  fixes f :: "'a \<Rightarrow> real"
  shows "sum_list (map f (filter P xs)) = (\<Sum>i\<in>{i. i < length xs \<and> P (xs ! i)}. f (xs ! i))"
proof (induction xs rule: rev_induct)
  case Nil
  then show ?case by simp
next
  case (snoc x xs)
  let ?S = "{i. i < length xs \<and> P (xs ! i)}"
  have fin: "finite ?S" by simp
  have notin: "length xs \<notin> ?S" by simp
  have same: "(\<Sum>i\<in>?S. f ((xs @ [x]) ! i)) = (\<Sum>i\<in>?S. f (xs ! i))"
    by (rule sum.cong) (simp_all add: nth_append)
  show ?case
  proof (cases "P x")
    case True
    have "{i. i < length (xs @ [x]) \<and> P ((xs @ [x]) ! i)} = insert (length xs) ?S"
      using True by (auto simp: nth_append less_Suc_eq)
    then show ?thesis using True snoc.IH fin notin same by simp
  next
    case False
    have "{i. i < length (xs @ [x]) \<and> P ((xs @ [x]) ! i)} = ?S"
      using False by (auto simp: nth_append less_Suc_eq)
    then show ?thesis using False snoc.IH same by simp
  qed
qed

lemma sum_list_nums: "sum_list (nums xs) = sum_list (map num_of xs)"
  by (induction xs rule: nums.induct) simp_all

lemma fgt_Num_iff: "fgt x (Num t) \<longleftrightarrow> above t x"
  by (cases x) (simp_all add: above_def)

lemma month_days_eq:
  "month_days d data = {i. i < length data \<and> in_month d (data ! i)}"
  by (auto simp: month_days_def)

lemma exceeding_days_eq:
  "exceeding_days d data t
     = {i. i < length data \<and> (in_month d (data ! i) \<and> above t (tp (data ! i)))}"
  by (auto simp: exceeding_days_def)

lemma extreme_eq:
  "filter (\<lambda>r. fgt (tp r) (Num t)) (monthly d data)
     = filter (\<lambda>r. in_month d r \<and> above t (tp r)) data"
  by (simp add: monthly_def fgt_Num_iff)

lemma extreme_length:
  "length (filter (\<lambda>r. fgt (tp r) (Num t)) (monthly d data)) = card (exceeding_days d data t)"
  unfolding extreme_eq exceeding_days_eq by (simp add: length_filter_conv_card)

lemma extreme_Nil_iff:
  "filter (\<lambda>r. fgt (tp r) (Num t)) (monthly d data) = []
     \<longleftrightarrow> card (exceeding_days d data t) = 0"
  using extreme_length [of t d data] by (simp only: length_0_conv [symmetric])

lemma extreme_sum:
  "psum (map tp (filter (\<lambda>r. fgt (tp r) (Num t)) (monthly d data)))
     = Num (\<Sum>i\<in>exceeding_days d data t. num_of (tp (data ! i)))"
proof -
  let ?ex = "filter (\<lambda>r. in_month d r \<and> above t (tp r)) data"
  have "sum_list (nums (map tp ?ex)) = sum_list (map (\<lambda>r. num_of (tp r)) ?ex)"
    by (simp add: sum_list_nums comp_def)
  also have "\<dots> = (\<Sum>i\<in>exceeding_days d data t. num_of (tp (data ! i)))"
    unfolding exceeding_days_eq by (rule sum_list_filter_index)
  finally show ?thesis unfolding extreme_eq by (simp add: psum_def)
qed

lemma psum_month_total: "psum (map tp (monthly d data)) = Num (month_total d data)"
proof -
  have "sum_list (nums (map tp (monthly d data)))
          = sum_list (map (\<lambda>r. num_of (tp r)) (filter (in_month d) data))"
    by (simp add: sum_list_nums monthly_def comp_def)
  also have "\<dots> = month_total d data"
    unfolding month_total_def month_days_eq by (rule sum_list_filter_index)
  finally show ?thesis by (simp add: psum_def)
qed

lemma extreme_none_NaN: "filter (\<lambda>r. fgt (tp r) NaN) xs = []"
  by (induction xs) simp_all

lemma exceeding_days_empty_iff:
  "exceeding_days d data t = {} \<longleftrightarrow> filter (\<lambda>r. fgt (tp r) (Num t)) (monthly d data) = []"
proof -
  have "finite (exceeding_days d data t)" by (simp add: exceeding_days_def)
  then show ?thesis by (simp add: extreme_Nil_iff)
qed

subsection \<open>The extreme-precipitation aggregator\<close>

lemma calc_extreme_precip_Num:
  "calc_extreme_precip d data (Num t) a =
     (let n = card (exceeding_days d data t);
          e = (\<Sum>i\<in>exceeding_days d data t. num_of (tp (data ! i))) - t * real n
      in (n, Num e, if fgt a (Num 0) then Num (e / num_of a) else Num 0))"
proof (cases "card (exceeding_days d data t) = 0")
  case True
  have "finite (exceeding_days d data t)" by (simp add: exceeding_days_def)
  with True have empty: "exceeding_days d data t = {}" by simp
  show ?thesis using True
    by (simp add: calc_extreme_precip_def extreme_Nil_iff empty Let_def)
next
  case False
  show ?thesis
  proof (cases a)
    case (Num r)
    then show ?thesis using False
      by (simp add: calc_extreme_precip_def extreme_Nil_iff extreme_length extreme_sum Let_def)
  next
    case NaN
    then show ?thesis using False
      by (simp add: calc_extreme_precip_def extreme_Nil_iff extreme_length extreme_sum Let_def)
  qed
qed

lemma calc_extreme_precip_none:
  "filter (\<lambda>r. fgt (tp r) threshold) (monthly d data) = [] \<Longrightarrow>
     calc_extreme_precip d data threshold a = (0, Num 0, Num 0)"
  by (simp add: calc_extreme_precip_def)

lemma storm_scenario:
  "calc_extreme_precip (day_of 2020 2 15) storm_series (Num 50) (Num 20)
     = (1, Num 30, Num (3 / 2))"
  by (simp add: calc_extreme_precip_def storm_series_def monthly_def in_month_def day_of_def
      psum_def)

text \<open>
  Claim C1. For every target month \<open>d\<close>, daily series, threshold \<open>t\<close> (a number) and
  wet-day average \<open>a\<close> (a number or NaN), \<open>calc_extreme_precip\<close> returns \<open>(n, e, i)\<close>:
  \<open>n\<close> is the number of days of that calendar month whose precipitation is strictly
  above \<open>t\<close>, \<open>e\<close> is the sum of those days' precipitation minus \<open>t\<close> times \<open>n\<close>, and
  \<open>i\<close> is \<open>e / a\<close> when \<open>a > 0\<close> and 0 otherwise. When no day of the month exceeds
  \<open>t\<close> the result is \<open>(0, 0, 0)\<close> (also for a threshold that is NaN, which no day
  exceeds). For a month with one day at 80 mm and one at 10 mm, \<open>t = 50\<close> and
  \<open>a = 20\<close>, the result is \<open>(1, 30, 1.5)\<close>.
\<close>

theorem calc_extreme_precip_triple:
  "calc_extreme_precip d data (Num t) a =
     (let n = card (exceeding_days d data t);
          e = (\<Sum>i\<in>exceeding_days d data t. num_of (tp (data ! i))) - t * real n
      in (n, Num e, if fgt a (Num 0) then Num (e / num_of a) else Num 0))
   \<and> (exceeding_days d data t = {} \<longrightarrow> calc_extreme_precip d data (Num t) a = (0, Num 0, Num 0))
   \<and> calc_extreme_precip d data NaN a = (0, Num 0, Num 0)
   \<and> calc_extreme_precip (day_of 2020 2 15) storm_series (Num 50) (Num 20)
       = (1, Num 30, Num (3 / 2))"
proof (intro conjI impI)
  show "calc_extreme_precip d data (Num t) a =
     (let n = card (exceeding_days d data t);
          e = (\<Sum>i\<in>exceeding_days d data t. num_of (tp (data ! i))) - t * real n
      in (n, Num e, if fgt a (Num 0) then Num (e / num_of a) else Num 0))"
    by (rule calc_extreme_precip_Num)
next
  assume "exceeding_days d data t = {}"
  then have "filter (\<lambda>r. fgt (tp r) (Num t)) (monthly d data) = []"
    by (simp add: exceeding_days_empty_iff)
  then show "calc_extreme_precip d data (Num t) a = (0, Num 0, Num 0)"
    by (rule calc_extreme_precip_none)
next
  show "calc_extreme_precip d data NaN a = (0, Num 0, Num 0)"
    by (rule calc_extreme_precip_none) (rule extreme_none_NaN)
next
  show "calc_extreme_precip (day_of 2020 2 15) storm_series (Num 50) (Num 20)
       = (1, Num 30, Num (3 / 2))"
    by (rule storm_scenario)
qed

theorem calc_extreme_precip_triple_witness:
  "card (exceeding_days (day_of 2020 2 15) storm_series 50) = 1
   \<and> (\<Sum>i\<in>exceeding_days (day_of 2020 2 15) storm_series 50. num_of (tp (storm_series ! i))) = 80
   \<and> exceeding_days (day_of 2019 2 15) storm_series 50 = {}
   \<and> calc_extreme_precip (day_of 2019 2 15) storm_series (Num 50) (Num 20) = (0, Num 0, Num 0)"
proof -
  have e: "exceeding_days (day_of 2019 2 15) storm_series 50 = {}"
    by (simp add: exceeding_days_empty_iff storm_series_def monthly_def in_month_def day_of_def)
  have "(let n = card (exceeding_days (day_of 2020 2 15) storm_series 50);
          e = (\<Sum>i\<in>exceeding_days (day_of 2020 2 15) storm_series 50.
                 num_of (tp (storm_series ! i))) - 50 * real n
      in (n, Num e, if fgt (Num 20) (Num 0) then Num (e / num_of (Num 20)) else Num 0))
     = (1, Num 30, Num (3 / 2))"
    using calc_extreme_precip_triple [of "day_of 2020 2 15" storm_series 50 "Num 20"]
      storm_scenario
    by (simp only:)
  then have "card (exceeding_days (day_of 2020 2 15) storm_series 50) = 1
    \<and> (\<Sum>i\<in>exceeding_days (day_of 2020 2 15) storm_series 50. num_of (tp (storm_series ! i))) = 80"
    by (simp add: Let_def)
  moreover have
    "calc_extreme_precip (day_of 2019 2 15) storm_series (Num 50) (Num 20) = (0, Num 0, Num 0)"
    using calc_extreme_precip_triple [of "day_of 2019 2 15" storm_series 50 "Num 20"] e by blast
  ultimately show ?thesis using e by blast
qed

subsection \<open>The wet-days aggregator\<close>

text \<open>
  Claim C7. For every target month and daily series, \<open>calc_wet_days\<close> returns the number
  of days of that calendar month whose precipitation is strictly above the wet-day
  threshold; the default threshold is 1.0 mm, and for the series
  [(2020-01-05, 15 mm), (2020-01-20, 2 mm)] the count for January 2020 is 2.
\<close>

theorem calc_wet_days_count:
  "calc_wet_days d data (Num t) = card (exceeding_days d data t)
   \<and> WET_DAY_THRESHOLD = Num 1
   \<and> calc_wet_days (day_of 2020 1 15) january_series WET_DAY_THRESHOLD = 2"
proof (intro conjI)
  show "calc_wet_days d data (Num t) = card (exceeding_days d data t)"
    by (simp add: calc_wet_days_def extreme_length)
  show "WET_DAY_THRESHOLD = Num 1" by (simp add: WET_DAY_THRESHOLD_def)
  show "calc_wet_days (day_of 2020 1 15) january_series WET_DAY_THRESHOLD = 2"
    by (simp add: calc_wet_days_def january_series_def WET_DAY_THRESHOLD_def monthly_def
        in_month_def day_of_def)
qed

theorem calc_wet_days_count_witness:
  "card (exceeding_days (day_of 2020 1 15) january_series 1) = 2"
  using calc_wet_days_count [of "day_of 2020 1 15" january_series 1]
  by (simp add: WET_DAY_THRESHOLD_def)

subsection \<open>The monthly rainfall deviation\<close>

lemma january_total: "month_total (day_of 2020 1 15) january_series = 17"
  using psum_month_total [of "day_of 2020 1 15" january_series]
  by (simp add: psum_def january_series_def monthly_def in_month_def day_of_def)

text \<open>
  Claim C2. For every target month, daily series and historical statistics that hold
  the mean \<open>h\<close> of the target's calendar month, the pooled standard deviation \<open>s\<close>
  and the annual mean \<open>a\<close> (all numbers), the monthly RSD is
  \<open>((total - h) / s) * (h / a)\<close>, where \<open>total\<close> is the month's actual total, and it
  is 0 whenever \<open>s\<close> or \<open>a\<close> is zero (then whatever the monthly mean holds).
\<close>

theorem calc_monthly_rsd_formula:
  "(monthly_mean hs (ts_month d) = Some (Num h) \<and> monthly_std hs = Num s \<and> annual_mean hs = Num a
      \<longrightarrow> calc_monthly_rsd d data hs =
            Inr (Num (if s = 0 \<or> a = 0 then 0
                      else ((month_total d data - h) / s) * (h / a))))
   \<and> (monthly_mean hs (ts_month d) = Some hm \<and> (monthly_std hs = Num 0 \<or> annual_mean hs = Num 0)
      \<longrightarrow> calc_monthly_rsd d data hs = Inr (Num 0))"
  by (auto simp: calc_monthly_rsd_def psum_month_total Let_def)

theorem calc_monthly_rsd_formula_witness:
  "calc_monthly_rsd (day_of 2020 1 15) january_series flat_stats = Inr (Num (- 13 / 60))
   \<and> calc_monthly_rsd (day_of 2020 1 15) january_series (flat_stats\<lparr>monthly_std := Num 0\<rparr>)
       = Inr (Num 0)"
proof -
  let ?d = "day_of 2020 1 15"
  let ?z = "flat_stats\<lparr>monthly_std := Num 0\<rparr>"
  have a: "monthly_mean flat_stats (ts_month ?d) = Some (Num 30)
      \<and> monthly_std flat_stats = Num 5 \<and> annual_mean flat_stats = Num 360"
    by (simp add: flat_stats_def day_of_def)
  have b: "monthly_mean ?z (ts_month ?d) = Some (Num 30)
      \<and> (monthly_std ?z = Num 0 \<or> annual_mean ?z = Num 0)"
    by (simp add: flat_stats_def day_of_def)
  have "calc_monthly_rsd ?d january_series flat_stats =
            Inr (Num (if (5::real) = 0 \<or> (360::real) = 0 then 0
                      else ((month_total ?d january_series - 30) / 5) * (30 / 360)))"
    using calc_monthly_rsd_formula [of flat_stats ?d 30 5 360 january_series] a by blast
  then have "calc_monthly_rsd ?d january_series flat_stats = Inr (Num (- 13 / 60))"
    unfolding january_total by simp
  moreover have "calc_monthly_rsd ?d january_series ?z = Inr (Num 0)"
    using calc_monthly_rsd_formula [of ?z ?d _ _ _ january_series "Num 30"] b by blast
  ultimately show ?thesis by blast
qed

subsection \<open>Lookback months\<close>

lemma lookback_eq: "lookback = [1, 2, 3, 4, 5, 6, 7, 8, 9, 10, 11, 12]"
  by (simp add: lookback_def N_MONTHS_def upt_rec)

lemma length_lookback: "length lookback = 12"
  by (simp add: lookback_def N_MONTHS_def)

lemma col_map_lookback:
  "1 \<le> m \<Longrightarrow> m \<le> 12 \<Longrightarrow> col (map f lookback) m = f m"
  by (simp add: col_def lookback_def N_MONTHS_def)

lemma sub_months_calendar:
  assumes "1 \<le> ts_month d" "ts_month d \<le> 12" "1 \<le> m" "m \<le> 12"
  shows "1 \<le> ts_month (sub_months d m) \<and> ts_month (sub_months d m) \<le> 12
       \<and> 12 * ts_year (sub_months d m) + int (ts_month (sub_months d m))
           = 12 * ts_year d + int (ts_month d) - int m"
proof (cases "m = 12")
  case True
  then show ?thesis using assms by (simp add: sub_months_def Let_def)
next
  case False
  with assms have "m div 12 = 0" "m mod 12 = m" by simp_all
  then show ?thesis using assms by (auto simp: sub_months_def Let_def)
qed


subsection \<open>The loops of the deviation script\<close>

lemma monthly_rsds_loop_map:
  "monthly_rsds_loop b p hs ms = Inr rs \<Longrightarrow>
     map (\<lambda>m. calc_monthly_rsd (sub_months b m) p hs) ms = map Inr rs"
  by (induction ms arbitrary: rs) (auto split: sum.splits)

lemma monthly_rsds_loop_length:
  "monthly_rsds_loop b p hs ms = Inr rs \<Longrightarrow> length rs = length ms"
  by (induction ms arbitrary: rs) (auto split: sum.splits)

lemma monthly_rsds_loop_take:
  "monthly_rsds_loop b p hs (ms @ ns) = Inr rs \<Longrightarrow>
     monthly_rsds_loop b p hs ms = Inr (take (length ms) rs)"
proof (induction ms arbitrary: rs)
  case Nil
  then show ?case by simp
next
  case (Cons m ms)
  then show ?case by (auto split: sum.splits)
qed

text \<open>The accumulator loop returns the left-to-right sum of what the list loop collects.\<close>

lemma cumulative_loop_fold:
  "cumulative_loop b p hs ms acc =
     (case monthly_rsds_loop b p hs ms of
        Inl e \<Rightarrow> Inl e
      | Inr rs \<Rightarrow> Inr (foldl fadd acc rs))"
  by (induction ms arbitrary: acc) (auto split: sum.splits)

lemma monthly_rsds_loop_prefix:
  assumes "monthly_rsds_loop b p hs lookback = Inr rs" "k \<le> 12"
  shows "monthly_rsds_loop b p hs [1..<k + 1] = Inr (take k rs)"
proof -
  have "[1..<(k + 1) + (12 - k)] = [1..<k + 1] @ [k + 1..<(k + 1) + (12 - k)]"
    by (rule upt_add_eq_append) simp
  moreover have "(k + 1) + (12 - k) = 13" using assms(2) by simp
  ultimately have split: "lookback = [1..<k + 1] @ [k + 1..<13]"
    by (simp add: lookback_def N_MONTHS_def)
  have "monthly_rsds_loop b p hs [1..<k + 1] = Inr (take (length [1..<k + 1]) rs)"
    by (rule monthly_rsds_loop_take [where ns = "[k + 1..<13]"]) (use assms(1) split in simp)
  then show ?thesis by simp
qed

lemma calc_cumulative_rsd_prefix:
  assumes "monthly_rsds_loop b p hs lookback = Inr rs" "k \<le> 12"
  shows "calc_cumulative_rsd b p hs k = Inr (py_sum (take k rs))"
  unfolding calc_cumulative_rsd_def cumulative_loop_fold
  by (simp only: monthly_rsds_loop_prefix [OF assms] sum.case py_sum_def)

lemma rsd_columns_monthly:
  assumes "rsd_columns b p hs = Inr (ms, cs)" "1 \<le> m" "m \<le> 12"
  shows "calc_monthly_rsd (sub_months b m) p hs = Inr (col ms m)"
proof -
  from assms(1) have loop: "monthly_rsds_loop b p hs lookback = Inr ms"
    by (auto simp: rsd_columns_def split: sum.splits)
  have len: "length ms = 12"
    using monthly_rsds_loop_length [OF loop] by (simp add: length_lookback)
  have "map (\<lambda>m. calc_monthly_rsd (sub_months b m) p hs) lookback ! (m - 1)
          = map Inr ms ! (m - 1)"
    by (simp only: monthly_rsds_loop_map [OF loop])
  moreover have "lookback ! (m - 1) = m"
    using assms(2,3) by (simp add: lookback_def N_MONTHS_def)
  ultimately show ?thesis using assms(2,3) len
    by (simp add: col_def length_lookback)
qed

text \<open>On numbers, Python's \<^verbatim>\<open>sum\<close> is the sum.\<close>

lemma foldl_fadd_Num: "foldl fadd (Num a) (map Num xs) = Num (a + sum_list xs)"
  by (induction xs arbitrary: a) (simp_all add: add.assoc)

lemma py_sum_Num: "py_sum (map Num xs) = Num (sum_list xs)"
  by (simp add: py_sum_def foldl_fadd_Num)



lemma rsd_columns_prefix_sum:
  assumes "rsd_columns b p hs = Inr (ms, cs)" "1 \<le> k" "k \<le> 12"
  shows "calc_cumulative_rsd b p hs k = Inr (col cs k)
       \<and> col cs k = py_sum (map (col ms) [1..<k + 1])
       \<and> map (\<lambda>j. calc_monthly_rsd (sub_months b j) p hs) [1..<k + 1]
           = map (\<lambda>j. Inr (col ms j)) [1..<k + 1]"
proof -
  from assms(1) have loop: "monthly_rsds_loop b p hs lookback = Inr ms"
    and cs: "cs = map (\<lambda>m. py_sum (take m ms)) lookback"
    by (auto simp: rsd_columns_def split: sum.splits)
  have len: "length ms = 12"
    using monthly_rsds_loop_length [OF loop] by (simp add: length_lookback)
  have c: "col cs k = py_sum (take k ms)"
    unfolding cs using assms(2,3) by (rule col_map_lookback)
  have t: "take k ms = map (col ms) [1..<k + 1]"
    using assms(3) len by (auto simp del: upt_Suc simp: list_eq_iff_nth_eq col_def)
  have "\<And>j. j \<in> set [1..<k + 1] \<Longrightarrow>
           calc_monthly_rsd (sub_months b j) p hs = Inr (col ms j)"
    using assms(3) by (intro rsd_columns_monthly [OF assms(1)]) auto
  then have m: "map (\<lambda>j. calc_monthly_rsd (sub_months b j) p hs) [1..<k + 1]
           = map (\<lambda>j. Inr (col ms j)) [1..<k + 1]"
    by (intro map_cong refl)
  show ?thesis
    using calc_cumulative_rsd_prefix [OF loop assms(3)] c t m by simp
qed

text \<open>The list loop succeeds exactly when every month's own computation does.\<close>

lemma monthly_rsds_loop_iff:
  "monthly_rsds_loop b p hs ms = Inr rs \<longleftrightarrow>
     map (\<lambda>m. calc_monthly_rsd (sub_months b m) p hs) ms = map Inr rs"
proof (induction ms arbitrary: rs)
  case Nil
  then show ?case by auto
next
  case (Cons m ms)
  show ?case
  proof (cases "calc_monthly_rsd (sub_months b m) p hs")
    case (Inl e)
    then show ?thesis by (cases rs) auto
  next
    case (Inr r)
    show ?thesis
    proof (cases "monthly_rsds_loop b p hs ms")
      case (Inl e)
      have "map (\<lambda>m. calc_monthly_rsd (sub_months b m) p hs) ms \<noteq> map Inr ts" for ts
        using Cons.IH [of ts] Inl by simp
      then show ?thesis using Inl Inr by (cases rs) auto
    next
      case (Inr later)
      then show ?thesis
        using Cons.IH [of later] Cons.IH [of "tl rs"] \<open>calc_monthly_rsd _ _ _ = Inr r\<close>
        by (cases rs) auto
    qed
  qed
qed

lemma calc_cumulative_rsd_sum:
  "map (\<lambda>j. calc_monthly_rsd (sub_months b j) p hs) [1..<k + 1] = map Inr rs \<Longrightarrow>
     calc_cumulative_rsd b p hs k = Inr (py_sum rs)"
  unfolding calc_cumulative_rsd_def cumulative_loop_fold monthly_rsds_loop_iff [symmetric]
  by (simp add: py_sum_def)

lemma calc_cumulative_rsd_Inr:
  assumes "calc_cumulative_rsd b p hs k = Inr c"
  shows "\<exists>rs. map (\<lambda>j. calc_monthly_rsd (sub_months b j) p hs) [1..<k + 1] = map Inr rs
            \<and> c = py_sum rs"
proof -
  from assms obtain rs where "monthly_rsds_loop b p hs [1..<k + 1] = Inr rs"
    and "c = py_sum rs"
    unfolding calc_cumulative_rsd_def cumulative_loop_fold
    by (auto simp: py_sum_def split: sum.splits)
  then show ?thesis using monthly_rsds_loop_iff by blast
qed

text \<open>With a mean for every calendar month the driver computes the row.\<close>

lemma calc_monthly_rsd_total:
  "monthly_mean hs (ts_month d) = Some v \<Longrightarrow> \<exists>r. calc_monthly_rsd d p hs = Inr r"
  by (simp add: calc_monthly_rsd_def Let_def)

lemma monthly_rsds_loop_total:
  assumes "{1..12} \<subseteq> dom (monthly_mean hs)" "1 \<le> ts_month b" "ts_month b \<le> 12"
    "set ms \<subseteq> {1..12}"
  shows "\<exists>rs. monthly_rsds_loop b p hs ms = Inr rs"
  using assms(4)
proof (induction ms)
  case Nil
  then show ?case by simp
next
  case (Cons m ms)
  then have m: "1 \<le> m" "m \<le> 12" by simp_all
  from sub_months_calendar [OF assms(2,3) m]
  have "ts_month (sub_months b m) \<in> {1..12}" by simp
  with assms(1) obtain v where "monthly_mean hs (ts_month (sub_months b m)) = Some v"
    by blast
  from calc_monthly_rsd_total [OF this]
  obtain r where "calc_monthly_rsd (sub_months b m) p hs = Inr r" by blast
  moreover from Cons obtain rs where "monthly_rsds_loop b p hs ms = Inr rs" by auto
  ultimately show ?case by simp
qed

lemma rsd_columns_total:
  assumes "{1..12} \<subseteq> dom (monthly_mean hs)" "1 \<le> ts_month b" "ts_month b \<le> 12"
  shows "\<exists>ms cs. rsd_columns b p hs = Inr (ms, cs)"
proof -
  have "set lookback \<subseteq> {1..12}" by (auto simp: lookback_def N_MONTHS_def)
  from monthly_rsds_loop_total [OF assms this]
  obtain rs where "monthly_rsds_loop b p hs lookback = Inr rs" by blast
  then show ?thesis by (simp add: rsd_columns_def)
qed

text \<open>
  Claim C4. For every reference date, daily series, historical statistics and \<open>k\<close>:
  the standalone \<open>calc_cumulative_rsd\<close> at \<open>k\<close> is the sum (taken from 0, in the order
  of the offsets) of the \<open>k\<close> monthly RSD values computed on their own for the offsets
  1..k counted backward from the reference date; it returns a value exactly when each
  of them does. When the statistics hold a mean for every calendar month, the file
  driver computes the row for every reference date, and for every \<open>k\<close> in 1..12 its
  cumulative column \<open>k\<close> is the value of the standalone function and the sum of its
  monthly columns 1..k, each the monthly RSD computed on its own. The same agreement
  holds for any statistics with which the driver computes the row.
\<close>

theorem cumulative_rsd_is_prefix_sum:
  "(map (\<lambda>j. calc_monthly_rsd (sub_months b j) p hs) [1..<k + 1] = map Inr rs
      \<longrightarrow> calc_cumulative_rsd b p hs k = Inr (py_sum rs))
   \<and> (calc_cumulative_rsd b p hs k = Inr c
      \<longrightarrow> (\<exists>xs. map (\<lambda>j. calc_monthly_rsd (sub_months b j) p hs) [1..<k + 1] = map Inr xs
              \<and> c = py_sum xs))
   \<and> ({1..12} \<subseteq> dom (monthly_mean hs) \<and> 1 \<le> ts_month b \<and> ts_month b \<le> 12
        \<and> 1 \<le> k \<and> k \<le> 12
      \<longrightarrow> (\<exists>ms cs. rsd_columns b p hs = Inr (ms, cs)
              \<and> calc_cumulative_rsd b p hs k = Inr (col cs k)
              \<and> col cs k = py_sum (map (col ms) [1..<k + 1])
              \<and> map (\<lambda>j. calc_monthly_rsd (sub_months b j) p hs) [1..<k + 1]
                  = map (\<lambda>j. Inr (col ms j)) [1..<k + 1]))
   \<and> (rsd_columns b p hs = Inr (ms', cs') \<and> 1 \<le> k \<and> k \<le> 12
      \<longrightarrow> calc_cumulative_rsd b p hs k = Inr (col cs' k)
          \<and> col cs' k = py_sum (map (col ms') [1..<k + 1])
          \<and> map (\<lambda>j. calc_monthly_rsd (sub_months b j) p hs) [1..<k + 1]
              = map (\<lambda>j. Inr (col ms' j)) [1..<k + 1])"
proof -
  have a: "map (\<lambda>j. calc_monthly_rsd (sub_months b j) p hs) [1..<k + 1] = map Inr rs
      \<longrightarrow> calc_cumulative_rsd b p hs k = Inr (py_sum rs)"
    using calc_cumulative_rsd_sum by blast
  have b: "calc_cumulative_rsd b p hs k = Inr c
      \<longrightarrow> (\<exists>xs. map (\<lambda>j. calc_monthly_rsd (sub_months b j) p hs) [1..<k + 1] = map Inr xs
              \<and> c = py_sum xs)"
    using calc_cumulative_rsd_Inr by blast
  have c: "{1..12} \<subseteq> dom (monthly_mean hs) \<and> 1 \<le> ts_month b \<and> ts_month b \<le> 12
        \<and> 1 \<le> k \<and> k \<le> 12
      \<longrightarrow> (\<exists>ms cs. rsd_columns b p hs = Inr (ms, cs)
              \<and> calc_cumulative_rsd b p hs k = Inr (col cs k)
              \<and> col cs k = py_sum (map (col ms) [1..<k + 1])
              \<and> map (\<lambda>j. calc_monthly_rsd (sub_months b j) p hs) [1..<k + 1]
                  = map (\<lambda>j. Inr (col ms j)) [1..<k + 1])"
  proof
    assume h: "{1..12} \<subseteq> dom (monthly_mean hs) \<and> 1 \<le> ts_month b \<and> ts_month b \<le> 12
        \<and> 1 \<le> k \<and> k \<le> 12"
    then obtain ms cs where cols: "rsd_columns b p hs = Inr (ms, cs)"
      using rsd_columns_total [of hs b p] by blast
    from h have k: "1 \<le> k" "k \<le> 12" by simp_all
    from rsd_columns_prefix_sum [OF cols k] cols
    show "\<exists>ms cs. rsd_columns b p hs = Inr (ms, cs)
              \<and> calc_cumulative_rsd b p hs k = Inr (col cs k)
              \<and> col cs k = py_sum (map (col ms) [1..<k + 1])
              \<and> map (\<lambda>j. calc_monthly_rsd (sub_months b j) p hs) [1..<k + 1]
                  = map (\<lambda>j. Inr (col ms j)) [1..<k + 1]"
      by blast
  qed
  have d: "rsd_columns b p hs = Inr (ms', cs') \<and> 1 \<le> k \<and> k \<le> 12
      \<longrightarrow> calc_cumulative_rsd b p hs k = Inr (col cs' k)
          \<and> col cs' k = py_sum (map (col ms') [1..<k + 1])
          \<and> map (\<lambda>j. calc_monthly_rsd (sub_months b j) p hs) [1..<k + 1]
              = map (\<lambda>j. Inr (col ms' j)) [1..<k + 1]"
  proof
    assume h: "rsd_columns b p hs = Inr (ms', cs') \<and> 1 \<le> k \<and> k \<le> 12"
    then have cols: "rsd_columns b p hs = Inr (ms', cs')" and k: "1 \<le> k" "k \<le> 12"
      by simp_all
    from rsd_columns_prefix_sum [OF cols k]
    show "calc_cumulative_rsd b p hs k = Inr (col cs' k)
          \<and> col cs' k = py_sum (map (col ms') [1..<k + 1])
          \<and> map (\<lambda>j. calc_monthly_rsd (sub_months b j) p hs) [1..<k + 1]
              = map (\<lambda>j. Inr (col ms' j)) [1..<k + 1]" .
  qed
  show ?thesis by (rule conjI [OF a conjI [OF b conjI [OF c d]]])
qed

lemma flat_columns:
  "rsd_columns (day_of 2020 3 15) january_series flat_stats =
     Inr (map Num [- 1 / 2, - 13 / 60, - 1 / 2, - 1 / 2, - 1 / 2, - 1 / 2,
                   - 1 / 2, - 1 / 2, - 1 / 2, - 1 / 2, - 1 / 2, - 1 / 2],
          map Num [- 1 / 2, - 43 / 60, - 73 / 60, - 103 / 60, - 133 / 60, - 163 / 60,
                   - 193 / 60, - 223 / 60, - 253 / 60, - 283 / 60, - 313 / 60, - 343 / 60])"
  by (simp add: rsd_columns_def lookback_eq calc_monthly_rsd_def sub_months_def day_of_def
      flat_stats_def january_series_def monthly_def in_month_def psum_def py_sum_def
      days_in_month_def is_leap_def Let_def)

lemma february_monthly:
  "map (\<lambda>j. calc_monthly_rsd (sub_months (day_of 2020 3 15) j) january_series february_stats)
       [1..<1 + 1] = map Inr [Num (- 1 / 2)]"
  by (simp add: calc_monthly_rsd_def sub_months_def day_of_def february_stats_def
      flat_stats_def january_series_def monthly_def in_month_def psum_def
      days_in_month_def is_leap_def Let_def)

lemma february_columns:
  "rsd_columns (day_of 2020 3 15) january_series february_stats = Inl KeyError"
  by (simp add: rsd_columns_def lookback_eq calc_monthly_rsd_def sub_months_def day_of_def
      february_stats_def flat_stats_def january_series_def monthly_def in_month_def psum_def
      days_in_month_def is_leap_def Let_def)

lemma flat_monthly:
  "calc_monthly_rsd (sub_months (day_of 2020 3 15) 1) january_series flat_stats
     = Inr (Num (- 1 / 2))"
  "calc_monthly_rsd (sub_months (day_of 2020 3 15) 2) january_series flat_stats
     = Inr (Num (- 13 / 60))"
  by (simp_all add: calc_monthly_rsd_def sub_months_def day_of_def flat_stats_def
      january_series_def monthly_def in_month_def psum_def days_in_month_def is_leap_def
      Let_def)

theorem cumulative_rsd_is_prefix_sum_witness:
  "(\<exists>ms cs. rsd_columns (day_of 2020 3 15) january_series flat_stats = Inr (ms, cs)
        \<and> col ms 1 = Num (- 1 / 2) \<and> col ms 2 = Num (- 13 / 60)
        \<and> col cs 2 = Num (- 43 / 60)
        \<and> calc_cumulative_rsd (day_of 2020 3 15) january_series flat_stats 2 = Inr (col cs 2))
   \<and> calc_cumulative_rsd (day_of 2020 3 15) january_series february_stats 1
       = Inr (Num (- 1 / 2))
   \<and> rsd_columns (day_of 2020 3 15) january_series february_stats = Inl KeyError"
proof -
  let ?d = "day_of 2020 3 15"
  have h: "{1..12} \<subseteq> dom (monthly_mean flat_stats) \<and> 1 \<le> ts_month ?d \<and> ts_month ?d \<le> 12
        \<and> 1 \<le> (2::nat) \<and> (2::nat) \<le> 12"
    by (auto simp: flat_stats_def day_of_def)
  have l: "[1..<2 + 1] = [1, 2::nat]" by (simp add: upt_rec)
  from cumulative_rsd_is_prefix_sum [of ?d january_series flat_stats 2] h
  obtain ms cs where cols: "rsd_columns ?d january_series flat_stats = Inr (ms, cs)"
    and cum: "calc_cumulative_rsd ?d january_series flat_stats 2 = Inr (col cs 2)"
    and sum: "col cs 2 = py_sum (map (col ms) [1..<2 + 1])"
    and each: "map (\<lambda>j. calc_monthly_rsd (sub_months ?d j) january_series flat_stats) [1..<2 + 1]
                  = map (\<lambda>j. Inr (col ms j)) [1..<2 + 1]"
    by blast
  from each have "Inr (col ms 1) = calc_monthly_rsd (sub_months ?d 1) january_series flat_stats"
    "Inr (col ms 2) = calc_monthly_rsd (sub_months ?d 2) january_series flat_stats"
    unfolding l by simp_all
  then have ms: "col ms 1 = Num (- 1 / 2)" "col ms 2 = Num (- 13 / 60)"
    unfolding flat_monthly by simp_all
  have "col cs 2 = py_sum [col ms 1, col ms 2]"
    using sum unfolding l by simp
  then have "col cs 2 = Num (- 43 / 60)"
    unfolding ms by (simp add: py_sum_def)
  with cols cum ms have first: "\<exists>ms cs. rsd_columns ?d january_series flat_stats = Inr (ms, cs)
        \<and> col ms 1 = Num (- 1 / 2) \<and> col ms 2 = Num (- 13 / 60)
        \<and> col cs 2 = Num (- 43 / 60)
        \<and> calc_cumulative_rsd ?d january_series flat_stats 2 = Inr (col cs 2)"
    by blast
  from cumulative_rsd_is_prefix_sum [of ?d january_series february_stats 1 "[Num (- 1 / 2)]"]
    february_monthly
  have "calc_cumulative_rsd ?d january_series february_stats 1 = Inr (py_sum [Num (- 1 / 2)])"
    by blast
  then have second: "calc_cumulative_rsd ?d january_series february_stats 1
      = Inr (Num (- 1 / 2))"
    by (simp add: py_sum_def)
  show ?thesis using first second february_columns by blast
qed

subsection \<open>The row loops of the three drivers\<close>

lemma wet_loop_rows:
  "wet_loop fs rows = Inr out \<Longrightarrow>
     out = map (\<lambda>r. (r, wet_columns (death_date_lag_0 r)
                         (projr (load_precip_data fs (DHSID r) (DHS_survey r))))) rows"
  by (induction rows arbitrary: out) (auto split: sum.splits)

lemma p999_loop_base: "p999_loop fs tdf rows = Inr out \<Longrightarrow> map fst out = rows"
  by (induction rows arbitrary: out) (auto split: sum.splits)

lemma rsd_loop_base: "rsd_loop fs rows = Inr out \<Longrightarrow> map fst out = rows"
  by (induction rows arbitrary: out) (auto split: sum.splits)

lemma wet_loop_loads:
  "wet_loop fs rows = Inr out \<Longrightarrow> r \<in> set rows \<Longrightarrow>
     \<exists>precip. load_precip_data fs (DHSID r) (DHS_survey r) = Inr precip"
  by (induction rows arbitrary: out) (auto split: sum.splits)

lemma p999_loop_loads:
  "p999_loop fs tdf rows = Inr out \<Longrightarrow> r \<in> set rows \<Longrightarrow>
     \<exists>x. load_precip_data_p999 fs (DHSID r) (DHS_survey r) tdf = Inr x"
  by (induction rows arbitrary: out) (auto split: sum.splits)

lemma rsd_loop_loads:
  "rsd_loop fs rows = Inr out \<Longrightarrow> r \<in> set rows \<Longrightarrow>
     \<exists>precip. load_precip_data fs (DHSID r) (DHS_survey r) = Inr precip"
  by (induction rows arbitrary: out) (auto split: sum.splits)

lemma map_col_lookback: "length xs = 12 \<Longrightarrow> map (col xs) lookback = xs"
  by (auto simp del: upt_Suc simp: list_eq_iff_nth_eq col_def lookback_def N_MONTHS_def)

lemma length_wet_columns: "length (wet_columns d precip) = 12"
  by (simp add: wet_columns_def length_lookback)

lemma wet_table_rows:
  assumes "wet_table fs filename = Inr out" "row \<in> set out"
  shows "\<exists>r precip. row = \<lparr>wet_base = r, wet_days = wet_columns (death_date_lag_0 r) precip,
            wet_days_annual = sum_list (map (col (wet_columns (death_date_lag_0 r) precip)) lookback)\<rparr>"
proof -
  from assms(1) obtain df rows where rows: "wet_loop fs (min_year_filter df) = Inr rows"
    and out: "out = map (\<lambda>(r, wd). \<lparr>wet_base = r, wet_days = wd,
                 wet_days_annual = sum_list (map (col wd) lookback)\<rparr>) rows"
    by (auto simp: wet_table_def split: option.splits sum.splits)
  from assms(2) out obtain r wd where "(r, wd) \<in> set rows"
    and row: "row = \<lparr>wet_base = r, wet_days = wd,
                 wet_days_annual = sum_list (map (col wd) lookback)\<rparr>"
    by auto
  then show ?thesis using wet_loop_rows [OF rows] by auto
qed

text \<open>
  Claim C8. In every row of the table the wet-days driver writes, \<open>wet_days_annual\<close> is
  the sum of the row's twelve monthly cells \<open>wet_days_1\<close> ... \<open>wet_days_12\<close>.
\<close>

theorem wet_days_annual_is_sum:
  assumes "wet_table fs filename = Inr out" "row \<in> set out"
  shows "length (wet_days row) = 12
       \<and> wet_days_annual row = sum_list (wet_days row)
       \<and> wet_days_annual row = (\<Sum>m = 1..12. col (wet_days row) m)"
proof -
  from wet_table_rows [OF assms] obtain r precip where
    row: "row = \<lparr>wet_base = r, wet_days = wet_columns (death_date_lag_0 r) precip,
            wet_days_annual = sum_list (map (col (wet_columns (death_date_lag_0 r) precip)) lookback)\<rparr>"
    by blast
  let ?wd = "wet_columns (death_date_lag_0 r) precip"
  have "sum_list (map (col ?wd) lookback) = (\<Sum>m = 1..12. col ?wd m)"
  proof -
    have "sum_list (map (col ?wd) [1..<13]) = sum (col ?wd) (set [1..<13])"
      by (rule interv_sum_list_conv_sum_set_nat)
    moreover have "set [1..<13] = {1..12::nat}" by auto
    ultimately show ?thesis by (simp add: lookback_def N_MONTHS_def)
  qed
  then show ?thesis
    unfolding row by (simp add: length_wet_columns map_col_lookback)
qed

lemma demo_wet_table:
  "wet_table (demo_files [stats_row_A]) ''in.csv'' =
     Inr [\<lparr>wet_base = record_2020, wet_days = [0, 2, 0, 0, 0, 0, 0, 0, 0, 0, 0, 0],
           wet_days_annual = 2\<rparr>]"
  by (simp add: wet_table_def demo_files_def min_year_filter_def MIN_YEAR_def record_1975_def
      record_2020_def day_of_def load_precip_data_def wet_columns_def lookback_eq
      calc_wet_days_def WET_DAY_THRESHOLD_def january_series_def monthly_def in_month_def
      sub_months_def days_in_month_def is_leap_def col_def Let_def)

theorem wet_days_annual_is_sum_witness:
  "wet_days_annual \<lparr>wet_base = record_2020, wet_days = [0, 2, 0, 0, 0, 0, 0, 0, 0, 0, 0, 0],
           wet_days_annual = 2\<rparr> = sum_list [0, 2, 0, 0, 0, 0, 0, 0, 0, 0, 0, 0]"
  using wet_days_annual_is_sum [OF demo_wet_table, of
      "\<lparr>wet_base = record_2020, wet_days = [0, 2, 0, 0, 0, 0, 0, 0, 0, 0, 0, 0],
           wet_days_annual = 2\<rparr>"]
  by simp

subsection \<open>The minimum-year filter\<close>

lemma wet_table_base:
  assumes "input_dir fs filename = Some df" "wet_table fs filename = Inr out"
  shows "map wet_base out = min_year_filter df"
proof -
  from assms obtain rows where rows: "wet_loop fs (min_year_filter df) = Inr rows"
    and out: "out = map (\<lambda>(r, wd). \<lparr>wet_base = r, wet_days = wd,
                 wet_days_annual = sum_list (map (col wd) lookback)\<rparr>) rows"
    by (auto simp: wet_table_def split: sum.splits)
  have "map wet_base out = map fst rows"
    unfolding out by (simp add: case_prod_beta comp_def)
  also have "\<dots> = min_year_filter df"
    using wet_loop_rows [OF rows] by (simp add: comp_def)
  finally show ?thesis .
qed

lemma p999_table_base:
  assumes "input_dir fs filename = Some df" "p999_table fs filename = Inr out"
  shows "map p999_base out = min_year_filter df"
proof -
  from assms obtain tdf rows where rows: "p999_loop fs tdf (min_year_filter df) = Inr rows"
    and out: "map p999_base out = map fst rows"
    by (auto simp: p999_table_def case_prod_beta comp_def Let_def split: option.splits sum.splits)
  show ?thesis using p999_loop_base [OF rows] out by simp
qed

lemma rsd_table_base:
  assumes "input_dir fs filename = Some df" "rsd_table fs filename = Inr out"
  shows "map rsd_base out = min_year_filter df"
proof -
  from assms obtain rows where rows: "rsd_loop fs (min_year_filter df) = Inr rows"
    and out: "map rsd_base out = map fst rows"
    by (auto simp: rsd_table_def rsd_finish_def comp_def Let_def split: sum.splits)
  show ?thesis using rsd_loop_base [OF rows] out by simp
qed

lemma demo_p999_table:
  "\<exists>out. p999_table (demo_files [stats_row_A]) ''in.csv'' = Inr out"
  by (simp add: p999_table_def demo_files_def min_year_filter_def MIN_YEAR_def record_1975_def
      record_2020_def day_of_def load_precip_data_p999_def load_precip_data_def stats_row_A_def)

lemma demo_rsd_table:
  "rsd_table (demo_files [stats_row_A]) ''in.csv'' =
     Inr [\<lparr>rsd_base = record_2020,
           rsd_month = map Num [- 1 / 2, - 13 / 60, - 1 / 2, - 1 / 2, - 1 / 2, - 1 / 2,
                   - 1 / 2, - 1 / 2, - 1 / 2, - 1 / 2, - 1 / 2, - 1 / 2],
           rsd_cumulative = map Num [- 1 / 2, - 43 / 60, - 73 / 60, - 103 / 60, - 133 / 60,
                   - 163 / 60, - 193 / 60, - 223 / 60, - 253 / 60, - 283 / 60, - 313 / 60,
                   - 343 / 60],
           rsd_annual = Num (- 343 / 60), rsd_positive = Num 0,
           rsd_negative = Num (- 343 / 60)\<rparr>]"
proof -
  have stats: "row_hist_stats (demo_files [stats_row_A]) ''A'' january_series = flat_stats"
    by (simp add: row_hist_stats_def load_precomputed_stats_def demo_files_def stats_row_A_def
        flat_stats_def cong: if_cong)
  have load: "load_precip_data (demo_files [stats_row_A]) ''A'' ''S1'' = Inr january_series"
    by (simp add: load_precip_data_def demo_files_def)
  have rows: "min_year_filter [record_1975, record_2020] = [record_2020]"
    by (simp add: min_year_filter_def MIN_YEAR_def record_1975_def record_2020_def day_of_def)
  have r: "DHSID record_2020 = ''A''" "DHS_survey record_2020 = ''S1''"
    "death_date_lag_0 record_2020 = day_of 2020 3 15"
    by (simp_all add: record_2020_def)
  have "rsd_table (demo_files [stats_row_A]) ''in.csv''
      = (case rsd_loop (demo_files [stats_row_A]) [record_2020] of
           Inl e \<Rightarrow> Inl e | Inr rows \<Rightarrow> Inr (map rsd_finish rows))"
    using rows by (simp add: rsd_table_def demo_files_def)
  then show ?thesis
    by (simp add: r load stats flat_columns rsd_finish_def col_def Let_def)
qed

text \<open>
  Claim C6. In each of the three pipelines, whenever a table is written for an input
  table, its rows are exactly the input's records whose reference date has a year of
  1981 or later, in the input's order: no record of a year before 1981 is in the
  output, and every record of 1981 or later is.
\<close>

theorem outputs_keep_years_from_1981:
  assumes "input_dir fs filename = Some df"
  shows "(wet_table fs filename = Inr wet_out
            \<longrightarrow> map wet_base wet_out = filter (\<lambda>r. 1981 \<le> ts_year (death_date_lag_0 r)) df)
       \<and> (p999_table fs filename = Inr p999_out
            \<longrightarrow> map p999_base p999_out = filter (\<lambda>r. 1981 \<le> ts_year (death_date_lag_0 r)) df)
       \<and> (rsd_table fs filename = Inr rsd_out
            \<longrightarrow> map rsd_base rsd_out = filter (\<lambda>r. 1981 \<le> ts_year (death_date_lag_0 r)) df)"
  using wet_table_base [OF assms] p999_table_base [OF assms] rsd_table_base [OF assms]
  by (simp add: min_year_filter_def MIN_YEAR_def)

theorem outputs_keep_years_from_1981_witness:
  "\<exists>wet_out p999_out rsd_out.
     wet_table (demo_files [stats_row_A]) ''in.csv'' = Inr wet_out
     \<and> p999_table (demo_files [stats_row_A]) ''in.csv'' = Inr p999_out
     \<and> rsd_table (demo_files [stats_row_A]) ''in.csv'' = Inr rsd_out
     \<and> map wet_base wet_out = [record_2020]
     \<and> map p999_base p999_out = [record_2020]
     \<and> map rsd_base rsd_out = [record_2020]"
proof -
  have input: "input_dir (demo_files [stats_row_A]) ''in.csv'' = Some [record_1975, record_2020]"
    by (simp add: demo_files_def)
  have kept: "filter (\<lambda>r. 1981 \<le> ts_year (death_date_lag_0 r)) [record_1975, record_2020]
      = [record_2020]"
    by (simp add: record_1975_def record_2020_def day_of_def)
  obtain p999_out where p: "p999_table (demo_files [stats_row_A]) ''in.csv'' = Inr p999_out"
    using demo_p999_table by blast
  obtain wet_out where w: "wet_table (demo_files [stats_row_A]) ''in.csv'' = Inr wet_out"
    using demo_wet_table by blast
  obtain rsd_out where r: "rsd_table (demo_files [stats_row_A]) ''in.csv'' = Inr rsd_out"
    using demo_rsd_table by blast
  have "map wet_base wet_out = [record_2020] \<and> map p999_base p999_out = [record_2020]
      \<and> map rsd_base rsd_out = [record_2020]"
    using outputs_keep_years_from_1981 [OF input, of wet_out p999_out rsd_out] w p r
    unfolding kept by simp
  then show ?thesis using w p r by simp
qed

subsection \<open>Lookup misses\<close>

lemma filter_key_Nil: "filter (\<lambda>x. f x = k) xs = [] \<longleftrightarrow> k \<notin> set (map f xs)"
  by (auto simp: filter_empty_conv)

lemma load_precip_data_city_miss:
  assumes "city_list_dir fs survey = Some city_map" "dhsid \<notin> set (map city_DHSID city_map)"
  shows "load_precip_data fs dhsid survey = Inl IndexError"
proof -
  have "filter (\<lambda>c. city_DHSID c = dhsid) city_map = []"
    using assms(2) filter_key_Nil [of city_DHSID dhsid city_map] by blast
  then show ?thesis using assms(1) by (simp add: load_precip_data_def)
qed

lemma load_precip_data_p999_miss:
  assumes "dhsid \<notin> set (map stats_DHSID tdf)"
  shows "\<exists>e. load_precip_data_p999 fs dhsid survey tdf = Inl e"
proof -
  have "filter (\<lambda>s. stats_DHSID s = dhsid) tdf = []"
    using assms filter_key_Nil [of stats_DHSID dhsid tdf] by blast
  then show ?thesis by (simp add: load_precip_data_p999_def split: sum.splits)
qed

lemma load_precip_data_p999_city_miss:
  assumes "city_list_dir fs survey = Some city_map" "dhsid \<notin> set (map city_DHSID city_map)"
  shows "load_precip_data_p999 fs dhsid survey tdf = Inl IndexError"
  by (simp add: load_precip_data_p999_def load_precip_data_city_miss [OF assms])

lemma load_precomputed_stats_miss:
  assumes "all_points_dhs_prep fs = Some stats" "dhsid \<notin> set (map stats_DHSID stats)"
  shows "load_precomputed_stats fs dhsid = None"
proof -
  have "filter (\<lambda>s. stats_DHSID s = dhsid) stats = []"
    using assms(2) filter_key_Nil [of stats_DHSID dhsid stats] by blast
  then show ?thesis using assms(1) by (simp add: load_precomputed_stats_def)
qed

lemma kept_by_filter:
  "r \<in> set df \<Longrightarrow> 1981 \<le> ts_year (death_date_lag_0 r) \<Longrightarrow> r \<in> set (min_year_filter df)"
  by (simp add: min_year_filter_def MIN_YEAR_def)

lemma process_file_wet_fails:
  assumes "input_dir fs filename = Some df" "r \<in> set (min_year_filter df)"
    "load_precip_data fs (DHSID r) (DHS_survey r) = Inl e"
  shows "process_file_wet fs filename = None"
proof (cases "wet_loop fs (min_year_filter df)")
  case (Inl e')
  then show ?thesis using assms(1) by (simp add: process_file_wet_def wet_table_def)
next
  case (Inr out)
  from wet_loop_loads [OF Inr assms(2)] assms(3) show ?thesis by simp
qed

lemma process_file_rsd_fails:
  assumes "input_dir fs filename = Some df" "r \<in> set (min_year_filter df)"
    "load_precip_data fs (DHSID r) (DHS_survey r) = Inl e"
  shows "process_file_rsd fs filename = None"
proof (cases "rsd_loop fs (min_year_filter df)")
  case (Inl e')
  then show ?thesis using assms(1) by (simp add: process_file_rsd_def rsd_table_def)
next
  case (Inr out)
  from rsd_loop_loads [OF Inr assms(2)] assms(3) show ?thesis by simp
qed

lemma process_file_p999_fails:
  assumes "input_dir fs filename = Some df" "r \<in> set (min_year_filter df)"
    "\<And>tdf. all_points_dhs_prep fs = Some tdf \<Longrightarrow>
        \<exists>e. load_precip_data_p999 fs (DHSID r) (DHS_survey r) tdf = Inl e"
  shows "process_file_p999 fs filename = None"
proof (cases "all_points_dhs_prep fs")
  case None
  then show ?thesis using assms(1) by (simp add: process_file_p999_def p999_table_def)
next
  case (Some tdf)
  show ?thesis
  proof (cases "p999_loop fs tdf (min_year_filter df)")
    case (Inl e')
    then show ?thesis using assms(1) Some by (simp add: process_file_p999_def p999_table_def)
  next
    case (Inr out)
    from p999_loop_loads [OF Inr assms(2)] assms(3) [OF Some] show ?thesis by auto
  qed
qed

lemma missing_input_fails:
  assumes "input_dir fs filename = None"
  shows "process_file_wet fs filename = None \<and> process_file_p999 fs filename = None
       \<and> process_file_rsd fs filename = None"
  using assms
  by (simp add: process_file_wet_def wet_table_def process_file_p999_def p999_table_def
      process_file_rsd_def rsd_table_def)

subsection \<open>Statistics that are not numbers\<close>

lemma calc_monthly_rsd_NaN_std:
  assumes "monthly_mean hs (ts_month d) = Some v" "monthly_std hs = NaN"
    "annual_mean hs \<noteq> Num 0"
  shows "calc_monthly_rsd d p hs = Inr NaN"
proof -
  have "\<not> feq (annual_mean hs) (Num 0)"
    using assms(3) by (cases "annual_mean hs") simp_all
  then show ?thesis using assms(1,2)
    by (simp add: calc_monthly_rsd_def psum_def Let_def)
qed

lemma january_stats:
  "monthly_std (calculate_historical_stats january_series) = NaN"
  "annual_mean (calculate_historical_stats january_series) = Num 17"
  "1 \<le> m \<Longrightarrow> m \<le> 12 \<Longrightarrow>
     \<exists>v. monthly_mean (calculate_historical_stats january_series) m = Some v"
  by (simp_all add: calculate_historical_stats_def january_series_def HISTORICAL_PERIOD_def
      year_month_def day_of_def pstd_def pmean_def psum_def Let_def)

lemma monthly_rsds_loop_NaN:
  assumes "monthly_std hs = NaN" "annual_mean hs \<noteq> Num 0"
    "\<And>m. m \<in> set ms \<Longrightarrow> \<exists>v. monthly_mean hs (ts_month (sub_months b m)) = Some v"
  shows "monthly_rsds_loop b p hs ms = Inr (map (\<lambda>m. NaN) ms)"
  using assms(3)
proof (induction ms)
  case Nil
  then show ?case by simp
next
  case (Cons m ms)
  from Cons.prems obtain v where "monthly_mean hs (ts_month (sub_months b m)) = Some v"
    by auto
  then have "calc_monthly_rsd (sub_months b m) p hs = Inr NaN"
    using assms(1,2) by (rule calc_monthly_rsd_NaN_std)
  then show ?case using Cons by simp
qed

lemma january_columns:
  "rsd_columns (day_of 2020 3 15) january_series (calculate_historical_stats january_series)
     = Inr ([NaN, NaN, NaN, NaN, NaN, NaN, NaN, NaN, NaN, NaN, NaN, NaN],
            [NaN, NaN, NaN, NaN, NaN, NaN, NaN, NaN, NaN, NaN, NaN, NaN])"
proof -
  let ?hs = "calculate_historical_stats january_series"
  have "\<exists>v. monthly_mean ?hs (ts_month (sub_months (day_of 2020 3 15) m)) = Some v"
    if "m \<in> set lookback" for m
  proof -
    have m: "1 \<le> m" "m \<le> 12" using that by (auto simp: lookback_def N_MONTHS_def)
    have d: "1 \<le> ts_month (day_of 2020 3 15)" "ts_month (day_of 2020 3 15) \<le> 12"
      by (simp_all add: day_of_def)
    from sub_months_calendar [OF d m] show ?thesis by (intro january_stats(3)) simp_all
  qed
  then have "monthly_rsds_loop (day_of 2020 3 15) january_series ?hs lookback
      = Inr (map (\<lambda>m. NaN) lookback)"
    by (intro monthly_rsds_loop_NaN) (simp_all add: january_stats)
  moreover have "map (\<lambda>m::nat. NaN) lookback = [NaN, NaN, NaN, NaN, NaN, NaN, NaN, NaN, NaN, NaN, NaN, NaN]"
    by (simp add: lookback_eq)
  ultimately have loop: "monthly_rsds_loop (day_of 2020 3 15) january_series ?hs lookback
      = Inr [NaN, NaN, NaN, NaN, NaN, NaN, NaN, NaN, NaN, NaN, NaN, NaN]"
    by (simp only:)
  show ?thesis
    unfolding rsd_columns_def loop by (simp add: lookback_eq py_sum_def)
qed

lemma NaN_rsd_table:
  "rsd_table (demo_files [stats_row_B]) ''in.csv'' =
     Inr [\<lparr>rsd_base = record_2020,
           rsd_month = [NaN, NaN, NaN, NaN, NaN, NaN, NaN, NaN, NaN, NaN, NaN, NaN],
           rsd_cumulative = [NaN, NaN, NaN, NaN, NaN, NaN, NaN, NaN, NaN, NaN, NaN, NaN],
           rsd_annual = NaN, rsd_positive = Num 0, rsd_negative = Num 0\<rparr>]"
proof -
  have stats: "row_hist_stats (demo_files [stats_row_B]) ''A'' january_series
      = calculate_historical_stats january_series"
    by (simp add: row_hist_stats_def load_precomputed_stats_def demo_files_def stats_row_B_def
        stats_row_A_def)
  have load: "load_precip_data (demo_files [stats_row_B]) ''A'' ''S1'' = Inr january_series"
    by (simp add: load_precip_data_def demo_files_def)
  have rows: "min_year_filter [record_1975, record_2020] = [record_2020]"
    by (simp add: min_year_filter_def MIN_YEAR_def record_1975_def record_2020_def day_of_def)
  have r: "DHSID record_2020 = ''A''" "DHS_survey record_2020 = ''S1''"
    "death_date_lag_0 record_2020 = day_of 2020 3 15"
    by (simp_all add: record_2020_def)
  have "rsd_table (demo_files [stats_row_B]) ''in.csv''
      = (case rsd_loop (demo_files [stats_row_B]) [record_2020] of
           Inl e \<Rightarrow> Inl e | Inr rows \<Rightarrow> Inr (map rsd_finish rows))"
    using rows by (simp add: rsd_table_def demo_files_def)
  then show ?thesis
    by (simp add: r load stats january_columns rsd_finish_def col_def Let_def)
qed

text \<open>
  Claim C9, as amended. For every input file and every record of it that passes the
  minimum-year filter: when the record's identifier has no row in its survey's mapping
  table, the file fails in all three pipelines; when it has no row in the threshold
  table, the file fails in the extreme-precipitation pipeline; in both cases
  \<open>process_file\<close> returns \<open>None\<close>, as it does for a missing input file. In the
  deviation pipeline an identifier without a row in the statistics table is no failure:
  \<open>load_precomputed_stats\<close> returns \<open>None\<close> and the row is computed with the
  statistics of the location's own daily series.
\<close>

theorem lookup_miss_fails_file:
  assumes "input_dir fs filename = Some df" "r \<in> set df"
    "1981 \<le> ts_year (death_date_lag_0 r)"
  shows "(city_list_dir fs (DHS_survey r) = Some city_map
            \<and> DHSID r \<notin> set (map city_DHSID city_map)
          \<longrightarrow> process_file_wet fs filename = None
              \<and> process_file_p999 fs filename = None
              \<and> process_file_rsd fs filename = None)
       \<and> (all_points_dhs_prep fs = Some stats \<and> DHSID r \<notin> set (map stats_DHSID stats)
          \<longrightarrow> process_file_p999 fs filename = None
              \<and> load_precomputed_stats fs (DHSID r) = None
              \<and> row_hist_stats fs (DHSID r) precip = calculate_historical_stats precip)
       \<and> (input_dir fs' filename' = None
          \<longrightarrow> process_file_wet fs' filename' = None
              \<and> process_file_p999 fs' filename' = None
              \<and> process_file_rsd fs' filename' = None)"
proof (intro conjI impI; (elim conjE)?)
  note kept = kept_by_filter [OF assms(2,3)]
  {
    assume city: "city_list_dir fs (DHS_survey r) = Some city_map"
      and miss: "DHSID r \<notin> set (map city_DHSID city_map)"
    note load = load_precip_data_city_miss [OF city miss]
    show "process_file_wet fs filename = None"
      by (rule process_file_wet_fails [OF assms(1) kept load])
    show "process_file_rsd fs filename = None"
      by (rule process_file_rsd_fails [OF assms(1) kept load])
    show "process_file_p999 fs filename = None"
      by (rule process_file_p999_fails [OF assms(1) kept])
        (simp add: load_precip_data_p999_city_miss [OF city miss])
  }
  {
    assume stats: "all_points_dhs_prep fs = Some stats"
      and miss: "DHSID r \<notin> set (map stats_DHSID stats)"
    show "process_file_p999 fs filename = None"
      by (rule process_file_p999_fails [OF assms(1) kept])
        (use stats load_precip_data_p999_miss [OF miss] in simp)
    show none: "load_precomputed_stats fs (DHSID r) = None"
      by (rule load_precomputed_stats_miss [OF stats miss])
    show "row_hist_stats fs (DHSID r) precip = calculate_historical_stats precip"
      by (simp add: row_hist_stats_def none)
  }
  {
    assume "input_dir fs' filename' = None"
    from missing_input_fails [OF this]
    show "process_file_wet fs' filename' = None" "process_file_p999 fs' filename' = None"
      "process_file_rsd fs' filename' = None"
      by simp_all
  }
qed

theorem lookup_miss_fails_file_witness:
  "process_file_wet ((demo_files [stats_row_B])\<lparr>city_list_dir := [''S1'' \<mapsto> []]\<rparr>) ''in.csv''
     = None
   \<and> process_file_rsd ((demo_files [stats_row_B])\<lparr>city_list_dir := [''S1'' \<mapsto> []]\<rparr>) ''in.csv''
     = None
   \<and> process_file_p999 (demo_files [stats_row_B]) ''in.csv'' = None
   \<and> row_hist_stats (demo_files [stats_row_B]) ''A'' january_series
     = calculate_historical_stats january_series
   \<and> process_file_wet (demo_files [stats_row_B]) ''absent.csv'' = None"
proof -
  let ?fs = "demo_files [stats_row_B]"
  let ?gs = "?fs\<lparr>city_list_dir := [''S1'' \<mapsto> []]\<rparr>"
  have r: "record_2020 \<in> set [record_1975, record_2020]"
    "1981 \<le> ts_year (death_date_lag_0 record_2020)"
    "DHSID record_2020 = ''A''" "DHS_survey record_2020 = ''S1''"
    by (simp_all add: record_2020_def day_of_def)
  have f: "input_dir ?fs ''in.csv'' = Some [record_1975, record_2020]"
    "all_points_dhs_prep ?fs = Some [stats_row_B]"
    "DHSID record_2020 \<notin> set (map stats_DHSID [stats_row_B])"
    "input_dir ?fs ''absent.csv'' = None"
    by (simp_all add: demo_files_def stats_row_B_def record_2020_def)
  have g: "input_dir ?gs ''in.csv'' = Some [record_1975, record_2020]"
    "city_list_dir ?gs (DHS_survey record_2020) = Some []"
    "DHSID record_2020 \<notin> set (map city_DHSID [])"
    by (simp_all add: demo_files_def record_2020_def)
  from lookup_miss_fails_file [OF g(1) r(1,2), of "[]" "[]" january_series ?fs "''absent.csv''"] g(2,3)
  have "process_file_wet ?gs ''in.csv'' = None \<and> process_file_rsd ?gs ''in.csv'' = None"
    by blast
  moreover
  from lookup_miss_fails_file [OF f(1) r(1,2), of "[]" "[stats_row_B]" january_series ?fs
      "''absent.csv''"] f(2,3,4)
  have "process_file_p999 ?fs ''in.csv'' = None
      \<and> row_hist_stats ?fs (DHSID record_2020) january_series
          = calculate_historical_stats january_series
      \<and> process_file_wet ?fs ''absent.csv'' = None"
    by blast
  ultimately show ?thesis unfolding r(3) by blast
qed

text \<open>
  Claim C9 as stated fails: in the deviation pipeline the record of 2020 at location
  \<open>A\<close> has no row in the statistics table (its only row is for \<open>B\<close>), and the file
  is processed all the same.
\<close>

theorem lookup_miss_rsd_counterexample:
  "input_dir (demo_files [stats_row_B]) ''in.csv'' = Some [record_1975, record_2020]
   \<and> all_points_dhs_prep (demo_files [stats_row_B]) = Some [stats_row_B]
   \<and> DHSID record_2020 \<notin> set (map stats_DHSID [stats_row_B])
   \<and> process_file_rsd (demo_files [stats_row_B]) ''in.csv'' = Some ''in.csv''"
proof -
  have "process_file_rsd (demo_files [stats_row_B]) ''in.csv'' = Some ''in.csv''"
    by (simp add: process_file_rsd_def NaN_rsd_table)
  moreover have "input_dir (demo_files [stats_row_B]) ''in.csv'' = Some [record_1975, record_2020]"
    "all_points_dhs_prep (demo_files [stats_row_B]) = Some [stats_row_B]"
    "DHSID record_2020 \<notin> set (map stats_DHSID [stats_row_B])"
    by (simp_all add: demo_files_def stats_row_B_def record_2020_def)
  ultimately show ?thesis by blast
qed

subsection \<open>Positive and negative part of the annual deviation\<close>

lemma rsd_table_rows:
  assumes "rsd_table fs filename = Inr out" "row \<in> set out"
  shows "\<exists>x. row = rsd_finish x"
proof -
  from assms(1) obtain rows where "out = map rsd_finish rows"
    by (auto simp: rsd_table_def split: option.splits sum.splits)
  with assms(2) have "row \<in> rsd_finish ` set rows" by simp
  then show ?thesis by blast
qed

text \<open>
  What holds in every row the deviation driver writes, whatever its annual RSD:
  \<open>rsd_annual\<close> is the cumulative column 12, \<open>rsd_positive\<close> is the annual RSD when
  that is strictly positive and 0 otherwise, \<open>rsd_negative\<close> is the annual RSD when that
  is strictly negative and 0 otherwise, \<open>rsd_positive\<close> is at least 0 and
  \<open>rsd_negative\<close> at most 0; and the two add up to the annual RSD when it is a number.
\<close>

lemma rsd_parts_every_row:
  assumes "rsd_table fs filename = Inr out" "row \<in> set out"
  shows "rsd_annual row = col (rsd_cumulative row) 12
       \<and> rsd_positive row = (if fgt (rsd_annual row) (Num 0) then rsd_annual row else Num 0)
       \<and> rsd_negative row = (if flt (rsd_annual row) (Num 0) then rsd_annual row else Num 0)
       \<and> 0 \<le> num_of (rsd_positive row) \<and> num_of (rsd_negative row) \<le> 0
       \<and> (rsd_annual row \<noteq> NaN
            \<longrightarrow> fadd (rsd_positive row) (rsd_negative row) = rsd_annual row)"
proof -
  from rsd_table_rows [OF assms(1,2)] obtain y where y: "row = rsd_finish y" by blast
  show ?thesis
    by (cases "col (snd (snd y)) 12") (auto simp: y rsd_finish_def Let_def)
qed

text \<open>
  Claim C10 (not met by the code). The parts of the annual RSD do not add up to it in a
  row whose annual RSD is NaN: both parts are 0 there. The deviation driver writes such
  a row for the record of 2020 when the statistics are computed from a series that
  covers a single month, through the NaN that the monthly RSD returns on statistics that
  are not numbers.
\<close>

theorem rsd_parts_NaN_row:
  "rsd_table (demo_files [stats_row_B]) ''in.csv'' =
     Inr [\<lparr>rsd_base = record_2020,
           rsd_month = [NaN, NaN, NaN, NaN, NaN, NaN, NaN, NaN, NaN, NaN, NaN, NaN],
           rsd_cumulative = [NaN, NaN, NaN, NaN, NaN, NaN, NaN, NaN, NaN, NaN, NaN, NaN],
           rsd_annual = NaN, rsd_positive = Num 0, rsd_negative = Num 0\<rparr>]
   \<and> fadd (Num 0) (Num 0) \<noteq> NaN"
  using NaN_rsd_table by simp

subsection \<open>Degenerate statistics\<close>

text \<open>
  Claim C3 (not met by the code). The extreme intensity is 0 when the wet-day average is
  NaN, but the monthly RSD is NaN, not 0, when the statistics are not numbers: with the
  statistics of an empty historical series (every mean and the standard deviation are
  NaN), with those of a series that covers one month only (the standard deviation of a
  single monthly total is NaN), and with a precomputed standard deviation that is NaN.
\<close>

theorem monthly_rsd_NaN_statistics:
  "calc_monthly_rsd (day_of 2020 1 15) january_series (calculate_historical_stats []) = Inr NaN
   \<and> calc_monthly_rsd (day_of 2020 1 15) january_series
        (calculate_historical_stats january_series) = Inr NaN
   \<and> calc_monthly_rsd (day_of 2020 1 15) january_series (flat_stats\<lparr>monthly_std := NaN\<rparr>)
       = Inr NaN
   \<and> snd (snd (calc_extreme_precip (day_of 2020 1 15) january_series (Num 10) NaN)) = Num 0"
proof (intro conjI)
  show "calc_monthly_rsd (day_of 2020 1 15) january_series (calculate_historical_stats [])
      = Inr NaN"
    by (rule calc_monthly_rsd_NaN_std [where v = NaN])
      (simp_all add: calculate_historical_stats_def pstd_def pmean_def day_of_def)
  show "calc_monthly_rsd (day_of 2020 1 15) january_series
        (calculate_historical_stats january_series) = Inr NaN"
  proof -
    obtain v where "monthly_mean (calculate_historical_stats january_series)
        (ts_month (day_of 2020 1 15)) = Some v"
      using january_stats(3) [of 1] by (auto simp: day_of_def)
    then show ?thesis
      by (rule calc_monthly_rsd_NaN_std) (simp_all add: january_stats)
  qed
  show "calc_monthly_rsd (day_of 2020 1 15) january_series (flat_stats\<lparr>monthly_std := NaN\<rparr>)
       = Inr NaN"
    by (rule calc_monthly_rsd_NaN_std [where v = "Num 30"])
      (simp_all add: flat_stats_def day_of_def)
  show "snd (snd (calc_extreme_precip (day_of 2020 1 15) january_series (Num 10) NaN)) = Num 0"
    by (simp add: calc_extreme_precip_def january_series_def monthly_def in_month_def
        day_of_def)
qed

end
